theory Spec2Isabelle
  imports Main "HOL-Library.Char_ord" "HOL-Library.List_Lexorder"
begin

section \<open>Data model (app/models)\<close>

text \<open>
  Balances and amounts are \<open>Decimal\<close> values held in \<open>Numeric(15, 2)\<close> columns. They are
  represented by their exact number of cents, an unbounded \<open>int\<close>: addition, subtraction and
  comparison of decimals of scale 2 are exactly those of the cent counts. Identifiers are
  strings; Python compares strings by code point, which on their UTF-8 bytes is the
  lexicographic order of \<open>HOL-Library.List_Lexorder\<close> over \<open>HOL-Library.Char_ord\<close>.
  The surrogate key \<open>id\<close> and the timestamp \<open>created_at\<close> are assigned by the store and
  play no part in the handlers; they are left out of the rows.
\<close>

datatype TransactionStatus = PENDING | COMPLETED | FAILED

record Account =
  account_id :: string
  owner_name :: string
  balance :: int

record Transaction =
  transaction_id :: string
  from_account_id :: string
  to_account_id :: string
  amount :: int
  status :: TransactionStatus
  description :: "string option"

text \<open>
  The Ledger Store: the \<open>accounts\<close> table is keyed by its unique column \<open>account_id\<close>, the
  \<open>transactions\<close> table is the list of its rows in insertion order; the uniqueness of
  \<open>transaction_id\<close> is a constraint the store checks when a row is inserted.
\<close>

record ledger =
  accounts :: "string \<rightharpoonup> Account"
  transactions :: "Transaction list"

section \<open>Request schemas (app/schemas)\<close>

text \<open>The JSON body of \<open>POST /accounts\<close>; \<open>initial_balance\<close> may be absent.\<close>

record AccountCreateBody =
  body_account_id :: string
  body_owner_name :: string
  body_initial_balance :: "int option"

record AccountCreate =
  new_account_id :: string
  new_owner_name :: string
  initial_balance :: int

record TransferRequest =
  req_from_account_id :: string
  req_to_account_id :: string
  req_amount :: int
  req_description :: "string option"
  req_transaction_id :: "string option"

text \<open>
  \<open>AccountCreate\<close>: \<open>account_id\<close> of 1 to 50 characters, \<open>owner_name\<close> of 1 to 100,
  \<open>initial_balance\<close> with \<open>default=Decimal("0.00")\<close> and \<open>ge=0\<close>. A body that fails
  validation never reaches the handler (the framework answers 422).
\<close>

definition parse_AccountCreate :: "AccountCreateBody \<Rightarrow> AccountCreate option" where
  "parse_AccountCreate b =
     (let bal = (case body_initial_balance b of None \<Rightarrow> 0 | Some v \<Rightarrow> v) in
      if 1 \<le> length (body_account_id b) \<and> length (body_account_id b) \<le> 50 \<and>
         1 \<le> length (body_owner_name b) \<and> length (body_owner_name b) \<le> 100 \<and>
         0 \<le> bal
      then Some \<lparr>new_account_id = body_account_id b, new_owner_name = body_owner_name b,
                 initial_balance = bal\<rparr>
      else None)"

text \<open>
  \<open>TransferRequest\<close>: both account ids of 1 to 50 characters, \<open>amount\<close> with \<open>gt=0\<close>,
  \<open>description\<close> of at most 500 and \<open>transaction_id\<close> of at most 100 characters when given.
\<close>

definition valid_TransferRequest :: "TransferRequest \<Rightarrow> bool" where
  "valid_TransferRequest r \<longleftrightarrow>
     1 \<le> length (req_from_account_id r) \<and> length (req_from_account_id r) \<le> 50 \<and>
     1 \<le> length (req_to_account_id r) \<and> length (req_to_account_id r) \<le> 50 \<and>
     0 < req_amount r \<and>
     (case req_description r of None \<Rightarrow> True | Some d \<Rightarrow> length d \<le> 500) \<and>
     (case req_transaction_id r of None \<Rightarrow> True | Some t \<Rightarrow> length t \<le> 100)"

section \<open>Errors\<close>

text \<open>
  Every \<open>HTTPException\<close> the handlers raise, by status code and detail:
  \<^item> \<open>SameAccount\<close>: 400, "Cannot transfer to the same account";
  \<^item> \<open>TransactionExists t\<close>: 400, "Transaction t already exists";
  \<^item> \<open>AccountNotFound a\<close>: 404, "Account a not found";
  \<^item> \<open>InsufficientFunds b r\<close>: 400, "Insufficient funds. Balance: b, Required: r";
  \<^item> \<open>TransferFailed\<close>: 500, "Transfer failed: ...";
  \<^item> \<open>AccountExists a\<close>: 400, "Account a already exists";
  \<^item> \<open>NegativeInitialBalance\<close>: 400, "Initial balance cannot be negative";
  \<^item> \<open>NonZeroBalance\<close>: 400, "Cannot delete account with non-zero balance";
  \<^item> \<open>ValidationError\<close>: 422, the schema rejected the body;
  \<^item> \<open>InternalServerError\<close>: 500, an exception no handler caught.
\<close>

datatype http_error =
    SameAccount
  | TransactionExists string
  | AccountNotFound string
  | InsufficientFunds int int
  | TransferFailed
  | AccountExists string
  | NegativeInitialBalance
  | NonZeroBalance
  | ValidationError
  | InternalServerError

fun status_code :: "http_error \<Rightarrow> nat" where
  "status_code SameAccount = 400"
| "status_code (TransactionExists t) = 400"
| "status_code (AccountNotFound a) = 404"
| "status_code (InsufficientFunds b r) = 400"
| "status_code TransferFailed = 500"
| "status_code (AccountExists a) = 400"
| "status_code NegativeInitialBalance = 400"
| "status_code NonZeroBalance = 400"
| "status_code ValidationError = 422"
| "status_code InternalServerError = 500"

text \<open>Exceptions other than \<open>HTTPException\<close> that can reach an \<open>except\<close> clause.\<close>

datatype py_exception = IntegrityError | KeyError | ObjectDeletedError

datatype raised = HTTPException http_error | Exception py_exception

section \<open>The session: one unit of work over the store (app/database.py)\<close>

text \<open>
  A SQLAlchemy session with \<open>autoflush=False\<close>: \<open>objects\<close> are the account rows loaded in this
  unit of work, by \<open>account_id\<close>, which the handler mutates in place; \<open>pending\<close> are the rows
  queued by \<open>db.add\<close> and \<open>db.delete\<close>. Nothing reaches the store before \<open>commit\<close>, which
  writes everything or nothing. \<open>log\<close> records, in the order of the source, what the
  unit of work does: its queries, the rows it locks, its reads of a balance held by the
  session, its commits and its rollbacks. The reloads of expired objects after a commit
  (lines 101 and 124 of the transfer handler) are not recorded.
\<close>

datatype write_op =
    InsertAccount Account
  | InsertTransaction Transaction
  | DeleteAccount string

datatype event =
    SelectTransaction string
  | SelectAccount string
  | SelectForUpdate string
  | ReadBalance string
  | Commit
  | CommitRejected
  | Rollback

record session =
  store :: ledger
  objects :: "string \<rightharpoonup> Account"
  pending :: "write_op list"
  log :: "event list"

definition SessionLocal :: "ledger \<Rightarrow> session" where
  "SessionLocal l = \<lparr>store = l, objects = Map.empty, pending = [], log = []\<rparr>"

definition query_transaction :: "string \<Rightarrow> session \<Rightarrow> Transaction option \<times> session" where
  "query_transaction tid s =
     (find (\<lambda>t. transaction_id t = tid) (transactions (store s)),
      s\<lparr>log := log s @ [SelectTransaction tid]\<rparr>)"

text \<open>
  \<open>db.query(Account).filter(Account.account_id == k).first()\<close>: an object this session
  already holds is returned as it is, otherwise the row is loaded from the store.
\<close>

definition load_account :: "string \<Rightarrow> session \<Rightarrow> Account option \<times> session" where
  "load_account k s =
     (case accounts (store s) k of
        None \<Rightarrow> (None, s)
      | Some row \<Rightarrow>
          (case objects s k of
             Some obj \<Rightarrow> (Some obj, s)
           | None \<Rightarrow> (Some row, s\<lparr>objects := (objects s)(k \<mapsto> row)\<rparr>)))"

definition query_account :: "string \<Rightarrow> session \<Rightarrow> Account option \<times> session" where
  "query_account k s = load_account k (s\<lparr>log := log s @ [SelectAccount k]\<rparr>)"

text \<open>The same with \<open>.with_for_update()\<close>: the row, when there is one, is locked until the
  unit of work ends.\<close>

definition query_account_for_update :: "string \<Rightarrow> session \<Rightarrow> Account option \<times> session" where
  "query_account_for_update k s = load_account k (s\<lparr>log := log s @ [SelectForUpdate k]\<rparr>)"

definition add :: "write_op \<Rightarrow> session \<Rightarrow> session" where
  "add w s = s\<lparr>pending := pending s @ [w]\<rparr>"

fun apply_write :: "write_op \<Rightarrow> ledger \<Rightarrow> py_exception + ledger" where
  "apply_write (InsertAccount a) l =
     (if accounts l (account_id a) \<noteq> None then Inl IntegrityError
      else Inr (l\<lparr>accounts := (accounts l)(account_id a \<mapsto> a)\<rparr>))"
| "apply_write (InsertTransaction t) l =
     (if transaction_id t \<in> set (map transaction_id (transactions l)) then Inl IntegrityError
      else Inr (l\<lparr>transactions := transactions l @ [t]\<rparr>))"
| "apply_write (DeleteAccount k) l = Inr (l\<lparr>accounts := (accounts l)(k := None)\<rparr>)"

fun flush :: "write_op list \<Rightarrow> ledger \<Rightarrow> py_exception + ledger" where
  "flush [] l = Inr l"
| "flush (w # ws) l = (case apply_write w l of Inl e \<Rightarrow> Inl e | Inr l' \<Rightarrow> flush ws l')"

text \<open>
  \<open>db.commit()\<close>: the loaded objects are written back over their rows, the queued rows are
  inserted or deleted, and the whole becomes durable; the objects are expired. When the
  store rejects a row, nothing is written and the exception is raised to the handler.
\<close>

definition commit :: "session \<Rightarrow> py_exception option \<times> session" where
  "commit s =
     (case flush (pending s) ((store s)\<lparr>accounts := accounts (store s) ++ objects s\<rparr>) of
        Inl e \<Rightarrow> (Some e, s\<lparr>log := log s @ [CommitRejected]\<rparr>)
      | Inr l \<Rightarrow> (None, s\<lparr>store := l, objects := Map.empty, pending := [],
                           log := log s @ [Commit]\<rparr>))"

definition rollback :: "session \<Rightarrow> session" where
  "rollback s = s\<lparr>objects := Map.empty, pending := [], log := log s @ [Rollback]\<rparr>"

section \<open>Account endpoints (app/api/accounts.py)\<close>

definition create_account :: "AccountCreate \<Rightarrow> session \<Rightarrow> (raised + Account) \<times> session" where
  "create_account account_data s =
     (case query_account (new_account_id account_data) s of
        (Some existing_account, s1) \<Rightarrow>
          (Inl (HTTPException (AccountExists (new_account_id account_data))), s1)
      | (None, s1) \<Rightarrow>
          if initial_balance account_data < 0
          then (Inl (HTTPException NegativeInitialBalance), s1)
          else
            let new_account = \<lparr>account_id = new_account_id account_data,
                               owner_name = new_owner_name account_data,
                               balance = initial_balance account_data\<rparr>
            in (case commit (add (InsertAccount new_account) s1) of
                  (Some e, s2) \<Rightarrow> (Inl (Exception e), s2)
                | (None, s2) \<Rightarrow>
                    (case accounts (store s2) (account_id new_account) of
                       None \<Rightarrow> (Inl (Exception ObjectDeletedError), s2)
                     | Some row \<Rightarrow> (Inr row, s2))))"


definition delete_account :: "string \<Rightarrow> session \<Rightarrow> (raised + unit) \<times> session" where
  "delete_account k s =
     (case query_account k s of
        (None, s1) \<Rightarrow> (Inl (HTTPException (AccountNotFound k)), s1)
      | (Some account, s1) \<Rightarrow>
          if balance account \<noteq> 0
          then (Inl (HTTPException NonZeroBalance), s1)
          else (case commit (add (DeleteAccount k) s1) of
                  (Some e, s2) \<Rightarrow> (Inl (Exception e), s2)
                | (None, s2) \<Rightarrow> (Inr (), s2)))"

section \<open>Transfer endpoint (app/api/transfers.py)\<close>

text \<open>Line 49: \<open>transfer_data.transaction_id or str(uuid.uuid4())\<close>. Python's \<open>or\<close> takes
  the generated value also for the empty string. \<open>uuid4\<close> is the value the generator
  returns for this call.\<close>

definition resolve_transaction_id :: "string option \<Rightarrow> string \<Rightarrow> string" where
  "resolve_transaction_id given uuid4 =
     (case given of None \<Rightarrow> uuid4 | Some t \<Rightarrow> if t = [] then uuid4 else t)"

text \<open>Line 65: \<open>sorted([from_account_id, to_account_id])\<close>.\<close>

definition sorted_ids :: "string \<Rightarrow> string \<Rightarrow> string list" where
  "sorted_ids a b = sort [a, b]"

text \<open>Lines 69 to 80: the loop that locks the rows in the order of the list. It stops with
  404 at the first account that does not exist.\<close>

fun lock_accounts ::
  "string list \<Rightarrow> string set \<Rightarrow> session \<Rightarrow> (raised + string set) \<times> session" where
  "lock_accounts [] locked_accounts s = (Inr locked_accounts, s)"
| "lock_accounts (k # ks) locked_accounts s =
     (case query_account_for_update k s of
        (None, s1) \<Rightarrow> (Inl (HTTPException (AccountNotFound k)), s1)
      | (Some account, s1) \<Rightarrow> lock_accounts ks (insert k locked_accounts) s1)"

text \<open>
  \<open>locked_accounts\<close> maps each id to the session's object for that row, so the dictionary
  is represented by its set of keys and an entry is read through \<open>objects\<close>. Reading or
  writing \<open>.balance\<close> goes to the object; a missing key raises \<open>KeyError\<close>.
\<close>

definition read_balance :: "string \<Rightarrow> session \<Rightarrow> (py_exception + int) \<times> session" where
  "read_balance k s =
     (case objects s k of
        None \<Rightarrow> (Inl KeyError, s)
      | Some obj \<Rightarrow> (Inr (balance obj), s\<lparr>log := log s @ [ReadBalance k]\<rparr>))"

definition write_balance :: "string \<Rightarrow> int \<Rightarrow> session \<Rightarrow> session" where
  "write_balance k v s =
     (case objects s k of
        None \<Rightarrow> s
      | Some obj \<Rightarrow> s\<lparr>objects := (objects s)(k \<mapsto> obj\<lparr>balance := v\<rparr>)\<rparr>)"

text \<open>After a commit the object is expired: \<open>from_account.balance\<close> on line 101 loads the
  row again.\<close>

definition reload_balance :: "string \<Rightarrow> session \<Rightarrow> py_exception + int" where
  "reload_balance k s =
     (case accounts (store s) k of None \<Rightarrow> Inl ObjectDeletedError | Some row \<Rightarrow> Inr (balance row))"

definition new_transaction :: "TransferRequest \<Rightarrow> string \<Rightarrow> TransactionStatus \<Rightarrow> Transaction" where
  "new_transaction transfer_data tid st =
     \<lparr>transaction_id = tid,
      from_account_id = req_from_account_id transfer_data,
      to_account_id = req_to_account_id transfer_data,
      amount = req_amount transfer_data,
      status = st,
      description = req_description transfer_data\<rparr>"

text \<open>Lines 104 to 126, funds sufficient: the record is built as \<open>PENDING\<close>, both balances
  are changed on the objects, the record is set to \<open>COMPLETED\<close>, and one commit writes the
  three rows. \<open>db.refresh\<close> reads the stored record back.\<close>

definition complete_transfer ::
  "TransferRequest \<Rightarrow> string \<Rightarrow> session \<Rightarrow> (raised + Transaction) \<times> session" where
  "complete_transfer transfer_data tid s =
     (let transaction = new_transaction transfer_data tid PENDING in
      case read_balance (req_from_account_id transfer_data) s of
        (Inl e, s1) \<Rightarrow> (Inl (Exception e), s1)
      | (Inr from_balance, s1) \<Rightarrow>
          let s2 = write_balance (req_from_account_id transfer_data)
                     (from_balance - req_amount transfer_data) s1 in
          (case read_balance (req_to_account_id transfer_data) s2 of
             (Inl e, s3) \<Rightarrow> (Inl (Exception e), s3)
           | (Inr to_balance, s3) \<Rightarrow>
               let s4 = write_balance (req_to_account_id transfer_data)
                          (to_balance + req_amount transfer_data) s3;
                   transaction = transaction\<lparr>status := COMPLETED\<rparr>
               in (case commit (add (InsertTransaction transaction) s4) of
                     (Some e, s5) \<Rightarrow> (Inl (Exception e), s5)
                   | (None, s5) \<Rightarrow>
                       (case find (\<lambda>t. transaction_id t = tid) (transactions (store s5)) of
                          None \<Rightarrow> (Inl (Exception ObjectDeletedError), s5)
                        | Some row \<Rightarrow> (Inr row, s5)))))"

text \<open>Lines 86 to 102, funds insufficient: a \<open>FAILED\<close> record is committed and 400 is
  raised with the balance and the amount.\<close>

definition reject_transfer ::
  "TransferRequest \<Rightarrow> string \<Rightarrow> session \<Rightarrow> (raised + Transaction) \<times> session" where
  "reject_transfer transfer_data tid s =
     (let failed_transaction = new_transaction transfer_data tid FAILED in
      case commit (add (InsertTransaction failed_transaction) s) of
        (Some e, s1) \<Rightarrow> (Inl (Exception e), s1)
      | (None, s1) \<Rightarrow>
          (case reload_balance (req_from_account_id transfer_data) s1 of
             Inl e \<Rightarrow> (Inl (Exception e), s1)
           | Inr b \<Rightarrow>
               (Inl (HTTPException (InsufficientFunds b (req_amount transfer_data))), s1)))"

text \<open>Lines 65 to 126: the body of the \<open>try\<close>.\<close>

definition transfer_try ::
  "TransferRequest \<Rightarrow> string \<Rightarrow> session \<Rightarrow> (raised + Transaction) \<times> session" where
  "transfer_try transfer_data tid s =
     (let account_ids = sorted_ids (req_from_account_id transfer_data)
                          (req_to_account_id transfer_data) in
      case lock_accounts account_ids {} s of
        (Inl e, s1) \<Rightarrow> (Inl e, s1)
      | (Inr locked_accounts, s1) \<Rightarrow>
          if req_from_account_id transfer_data \<notin> locked_accounts \<or>
             req_to_account_id transfer_data \<notin> locked_accounts
          then (Inl (Exception KeyError), s1)
          else
            (case read_balance (req_from_account_id transfer_data) s1 of
               (Inl e, s2) \<Rightarrow> (Inl (Exception e), s2)
             | (Inr from_balance, s2) \<Rightarrow>
                 if from_balance < req_amount transfer_data
                 then reject_transfer transfer_data tid s2
                 else complete_transfer transfer_data tid s2))"

text \<open>Lines 128 to 154: the two \<open>except\<close> clauses. An \<open>HTTPException\<close> is raised again
  after a rollback. Any other exception is answered with 500, after a rollback and an
  attempt to commit a \<open>FAILED\<close> record whose own failure is ignored.\<close>

definition transfer_except ::
  "TransferRequest \<Rightarrow> string \<Rightarrow> (raised + Transaction) \<times> session \<Rightarrow>
   (http_error + Transaction) \<times> session" where
  "transfer_except transfer_data tid r =
     (case r of
        (Inr transaction, s) \<Rightarrow> (Inr transaction, s)
      | (Inl (HTTPException e), s) \<Rightarrow> (Inl e, rollback s)
      | (Inl (Exception e), s) \<Rightarrow>
          let s1 = rollback s;
              failed_transaction = new_transaction transfer_data tid FAILED;
              s2 = snd (commit (add (InsertTransaction failed_transaction) s1))
          in (Inl TransferFailed, s2))"

text \<open>
  The handler. Between the idempotency query of line 52 and the first lock of line 71 the
  handler holds no lock, so other units of work can commit there: \<open>concurrent\<close> is what
  they do to the store in that window. A call that runs alone has \<open>concurrent = id\<close>.
\<close>

definition create_transfer_racing ::
  "(ledger \<Rightarrow> ledger) \<Rightarrow> string \<Rightarrow> TransferRequest \<Rightarrow> session \<Rightarrow>
   (http_error + Transaction) \<times> session" where
  "create_transfer_racing concurrent uuid4 transfer_data s =
     (if req_from_account_id transfer_data = req_to_account_id transfer_data
      then (Inl SameAccount, s)
      else
        let tid = resolve_transaction_id (req_transaction_id transfer_data) uuid4 in
        case query_transaction tid s of
          (Some existing_transaction, s1) \<Rightarrow> (Inl (TransactionExists tid), s1)
        | (None, s1) \<Rightarrow>
            transfer_except transfer_data tid
              (transfer_try transfer_data tid (s1\<lparr>store := concurrent (store s1)\<rparr>)))"

definition create_transfer ::
  "string \<Rightarrow> TransferRequest \<Rightarrow> session \<Rightarrow> (http_error + Transaction) \<times> session" where
  "create_transfer uuid4 transfer_data s = create_transfer_racing (\<lambda>l. l) uuid4 transfer_data s"

section \<open>The public interface\<close>

text \<open>
  A request is validated against its schema, then the handler runs on a session of its
  own (\<open>get_db\<close>), which is closed afterwards: what remains is the store. An exception
  that leaves a handler is answered with 500.
\<close>

definition respond :: "(raised + 'a) \<times> session \<Rightarrow> (http_error + 'a) \<times> ledger" where
  "respond r =
     (case r of
        (Inr v, s) \<Rightarrow> (Inr v, store s)
      | (Inl (HTTPException e), s) \<Rightarrow> (Inl e, store s)
      | (Inl (Exception e), s) \<Rightarrow> (Inl InternalServerError, store s))"

definition post_accounts :: "AccountCreateBody \<Rightarrow> ledger \<Rightarrow> (http_error + Account) \<times> ledger" where
  "post_accounts body l =
     (case parse_AccountCreate body of
        None \<Rightarrow> (Inl ValidationError, l)
      | Some account_data \<Rightarrow> respond (create_account account_data (SessionLocal l)))"


definition delete_accounts :: "string \<Rightarrow> ledger \<Rightarrow> (http_error + unit) \<times> ledger" where
  "delete_accounts k l = respond (delete_account k (SessionLocal l))"

definition post_transfers ::
  "string \<Rightarrow> TransferRequest \<Rightarrow> ledger \<Rightarrow> (http_error + Transaction) \<times> ledger" where
  "post_transfers uuid4 transfer_data l =
     (if valid_TransferRequest transfer_data
      then (case create_transfer uuid4 transfer_data (SessionLocal l) of (r, s) \<Rightarrow> (r, store s))
      else (Inl ValidationError, l))"

text \<open>The states of the store that the public interface can produce from the empty
  database. Generated transaction ids are not empty.\<close>

definition empty_ledger :: ledger where
  "empty_ledger = \<lparr>accounts = Map.empty, transactions = []\<rparr>"

inductive reachable :: "ledger \<Rightarrow> bool" where
  init: "reachable empty_ledger"
| created: "reachable l \<Longrightarrow> reachable (snd (post_accounts body l))"
| deleted: "reachable l \<Longrightarrow> reachable (snd (delete_accounts k l))"
| transferred: "reachable l \<Longrightarrow> uuid4 \<noteq> [] \<Longrightarrow> reachable (snd (post_transfers uuid4 transfer_data l))"


section \<open>Observations on a run\<close>

text \<open>The rows locked, in the order of their \<open>SELECT ... FOR UPDATE\<close> statements.\<close>

fun locks_of :: "event list \<Rightarrow> string list" where
  "locks_of [] = []"
| "locks_of (SelectForUpdate k # es) = k # locks_of es"
| "locks_of (e # es) = locks_of es"

text \<open>The statements issued before the first read of a balance.\<close>

fun before_first_read :: "event list \<Rightarrow> event list" where
  "before_first_read [] = []"
| "before_first_read (ReadBalance k # es) = []"
| "before_first_read (e # es) = e # before_first_read es"

fun reads_balance :: "event list \<Rightarrow> bool" where
  "reads_balance [] = False"
| "reads_balance (ReadBalance k # es) = True"
| "reads_balance (e # es) = reads_balance es"

text \<open>The commits, accepted or rejected, and the rollbacks of a run.\<close>

fun unit_of_work :: "event list \<Rightarrow> event list" where
  "unit_of_work [] = []"
| "unit_of_work (Commit # es) = Commit # unit_of_work es"
| "unit_of_work (CommitRejected # es) = CommitRejected # unit_of_work es"
| "unit_of_work (Rollback # es) = Rollback # unit_of_work es"
| "unit_of_work (e # es) = unit_of_work es"

definition terminal :: "Transaction \<Rightarrow> bool" where
  "terminal t \<longleftrightarrow> status t = COMPLETED \<or> status t = FAILED"

definition non_negative :: "ledger \<Rightarrow> bool" where
  "non_negative l \<longleftrightarrow> (\<forall>k a. accounts l k = Some a \<longrightarrow> 0 \<le> balance a)"


section \<open>Fixtures of the test suite\<close>

definition two_accounts :: "string \<Rightarrow> int \<Rightarrow> string \<Rightarrow> int \<Rightarrow> ledger" where
  "two_accounts k1 b1 k2 b2 =
     \<lparr>accounts = [k1 \<mapsto> \<lparr>account_id = k1, owner_name = ''Source'', balance = b1\<rparr>,
                  k2 \<mapsto> \<lparr>account_id = k2, owner_name = ''Dest'', balance = b2\<rparr>],
      transactions = []\<rparr>"

definition transfer_request :: "string \<Rightarrow> string \<Rightarrow> int \<Rightarrow> string option \<Rightarrow> TransferRequest" where
  "transfer_request x y n t =
     \<lparr>req_from_account_id = x, req_to_account_id = y, req_amount = n,
      req_description = None, req_transaction_id = t\<rparr>"

definition account_body :: "string \<Rightarrow> string \<Rightarrow> int option \<Rightarrow> AccountCreateBody" where
  "account_body k n b = \<lparr>body_account_id = k, body_owner_name = n, body_initial_balance = b\<rparr>"

text \<open>\<open>test_concurrent_duplicate_transaction_ids\<close>: every thread posts this request; the
  thread that wins runs its whole transfer while another waits for the locks.\<close>

definition duplicate_request :: TransferRequest where
  "duplicate_request =
     transfer_request ''IDEMPOTENT_SRC'' ''IDEMPOTENT_DEST'' 10000 (Some ''DUPLICATE_TEST_001'')"

definition winning_thread :: "ledger \<Rightarrow> ledger" where
  "winning_thread l = store (snd (create_transfer ''uuid-1'' duplicate_request (SessionLocal l)))"

text \<open>\<open>test_transfer_idempotency\<close>: the store after the first transfer.\<close>

definition idempotency_ledger :: ledger where
  "idempotency_ledger =
     store (snd (create_transfer ''uuid-3''
       (transfer_request ''TEST001'' ''TEST002'' 10000 (Some ''IDEMPOTENT_TEST_001''))
       (SessionLocal (two_accounts ''TEST001'' 100000 ''TEST002'' 50000))))"


text \<open>\<open>test_transfer_one_penny_over_balance\<close>, through the public interface: two accounts
  are created, the second with the default balance, and 100.01 is asked of 100.00.\<close>

definition over_balance_ledger :: ledger where
  "over_balance_ledger =
     snd (post_transfers ''uuid-2'' (transfer_request ''OVER_SRC'' ''OVER_DEST'' 10001 None)
       (snd (post_accounts (account_body ''OVER_DEST'' ''Dest'' None)
         (snd (post_accounts (account_body ''OVER_SRC'' ''Source'' (Some 10000)) empty_ledger)))))"


section \<open>Auxiliary facts about the session and the transfer steps\<close>

lemma sorted_ids_cases:
  "sorted_ids a b = (if a \<le> b then [a, b] else [b, a])"
  by (simp add: sorted_ids_def)

lemma find_append_new:
  "tid \<notin> transaction_id ` set ts \<Longrightarrow> transaction_id t = tid \<Longrightarrow>
   find (\<lambda>t. transaction_id t = tid) (ts @ [t]) = Some t"
  by (induction ts) auto

lemma find_None_ids:
  "find (\<lambda>t. transaction_id t = tid) ts = None \<longleftrightarrow> tid \<notin> transaction_id ` set ts"
  by (induction ts) auto

lemma lock_two:
  assumes "x \<noteq> y" "accounts (store s) x = Some a" "accounts (store s) y = Some b"
    and "objects s = Map.empty"
  shows "lock_accounts [x, y] {} s =
     (Inr {x, y}, s\<lparr>objects := [x \<mapsto> a, y \<mapsto> b], log := log s @ [SelectForUpdate x, SelectForUpdate y]\<rparr>)"
  using assms
  by (auto simp: query_account_for_update_def load_account_def)

lemma lock_sorted:
  assumes "x \<noteq> y" "accounts (store s) x = Some a" "accounts (store s) y = Some b"
    and "objects s = Map.empty"
  shows "lock_accounts (sorted_ids x y) {} s =
     (Inr {x, y}, s\<lparr>objects := [x \<mapsto> a, y \<mapsto> b],
                     log := log s @ map SelectForUpdate (sorted_ids x y)\<rparr>)"
proof (cases "x \<le> y")
  case True
  then show ?thesis using lock_two [OF assms] by (simp only: sorted_ids_cases if_True list.map)
next
  case False
  have "[y \<mapsto> b, x \<mapsto> a] = [x \<mapsto> a, y \<mapsto> b]"
    using assms(1) by (simp add: fun_upd_twist)
  moreover have "{y, x} = {x, y}" by auto
  ultimately show ?thesis
    using False lock_two [of y x s b a] assms 
    by (simp only: sorted_ids_cases if_False list.map not_sym)
qed

lemma commit_insert_fresh:
  assumes "pending s = []" "transaction_id t \<notin> transaction_id ` set (transactions (store s))"
  shows "commit (add (InsertTransaction t) s) =
     (None, s\<lparr>store := \<lparr>accounts = accounts (store s) ++ objects s,
                          transactions = transactions (store s) @ [t]\<rparr>,
              objects := Map.empty, pending := [], log := log s @ [Commit]\<rparr>)"
  using assms by (simp add: commit_def add_def)

lemma commit_insert_duplicate:
  assumes "pending s = []" "transaction_id t \<in> transaction_id ` set (transactions (store s))"
  shows "commit (add (InsertTransaction t) s) =
     (Some IntegrityError, s\<lparr>pending := [InsertTransaction t], log := log s @ [CommitRejected]\<rparr>)"
  using assms by (simp add: commit_def add_def)

lemma complete_transfer_commits:
  assumes "x = req_from_account_id r" "y = req_to_account_id r" "x \<noteq> y"
    and "objects s = [x \<mapsto> a, y \<mapsto> b]" "pending s = []"
    and "tid \<notin> transaction_id ` set (transactions (store s))"
  shows "complete_transfer r tid s =
     (Inr (new_transaction r tid COMPLETED),
      s\<lparr>store := \<lparr>accounts = (accounts (store s))
                     (x \<mapsto> a\<lparr>balance := balance a - req_amount r\<rparr>,
                      y \<mapsto> b\<lparr>balance := balance b + req_amount r\<rparr>),
                   transactions = transactions (store s) @ [new_transaction r tid COMPLETED]\<rparr>,
        objects := Map.empty, pending := [],
        log := log s @ [ReadBalance x, ReadBalance y, Commit]\<rparr>)"
proof -
  let ?t = "new_transaction r tid COMPLETED"
  have t: "(new_transaction r tid PENDING)\<lparr>status := COMPLETED\<rparr> = ?t"
    by (simp add: new_transaction_def)
  have tid: "transaction_id ?t = tid" by (simp add: new_transaction_def)
  let ?s4 = "s\<lparr>objects := [x \<mapsto> a\<lparr>balance := balance a - req_amount r\<rparr>,
                             y \<mapsto> b\<lparr>balance := balance b + req_amount r\<rparr>],
               log := log s @ [ReadBalance x, ReadBalance y]\<rparr>"
  have maps: "accounts (store s) ++ [x \<mapsto> a\<lparr>balance := balance a - req_amount r\<rparr>,
                             y \<mapsto> b\<lparr>balance := balance b + req_amount r\<rparr>]
      = (accounts (store s))
                     (x \<mapsto> a\<lparr>balance := balance a - req_amount r\<rparr>,
                      y \<mapsto> b\<lparr>balance := balance b + req_amount r\<rparr>)"
    by simp
  have c: "commit (add (InsertTransaction ?t) ?s4) = (None, 
      s\<lparr>store := \<lparr>accounts = (accounts (store s))
                     (x \<mapsto> a\<lparr>balance := balance a - req_amount r\<rparr>,
                      y \<mapsto> b\<lparr>balance := balance b + req_amount r\<rparr>),
                   transactions = transactions (store s) @ [?t]\<rparr>,
        objects := Map.empty, pending := [],
        log := log s @ [ReadBalance x, ReadBalance y, Commit]\<rparr>)"
    using assms(5,6) by (subst commit_insert_fresh) (simp_all add: tid)
  have f: "find (\<lambda>t. transaction_id t = tid) (transactions (store s) @ [?t]) = Some ?t"
    using assms(6) tid by (rule find_append_new)
  have r1: "read_balance x s = (Inr (balance a), s\<lparr>log := log s @ [ReadBalance x]\<rparr>)"
    using assms(3,4) by (simp add: read_balance_def)
  let ?s2 = "s\<lparr>objects := [x \<mapsto> a\<lparr>balance := balance a - req_amount r\<rparr>, y \<mapsto> b],
               log := log s @ [ReadBalance x]\<rparr>"
  have w1: "write_balance x (balance a - req_amount r) (s\<lparr>log := log s @ [ReadBalance x]\<rparr>) = ?s2"
    using assms(3,4) by (simp add: write_balance_def fun_upd_twist)
  have r2: "read_balance y ?s2 = (Inr (balance b), ?s2\<lparr>log := log s @ [ReadBalance x, ReadBalance y]\<rparr>)"
    using assms(3) by (simp add: read_balance_def)
  have w2: "write_balance y (balance b + req_amount r)
              (?s2\<lparr>log := log s @ [ReadBalance x, ReadBalance y]\<rparr>) = ?s4"
    using assms(3) by (simp add: write_balance_def)
  show ?thesis
    unfolding complete_transfer_def Let_def t assms(1)[symmetric] assms(2)[symmetric]
    by (simp only: r1 w1 r2 w2 c prod.case sum.case option.case) (simp add: f)
qed


lemma map_add_same_rows:
  "m x = Some a \<Longrightarrow> m y = Some b \<Longrightarrow> m ++ [x \<mapsto> a, y \<mapsto> b] = m"
  by (rule ext) (simp add: map_add_def)

lemma reject_transfer_commits:
  assumes "x = req_from_account_id r"
    and "accounts (store s) x = Some a" "accounts (store s) y = Some b"
    and "objects s = [x \<mapsto> a, y \<mapsto> b]" "pending s = []"
    and "tid \<notin> transaction_id ` set (transactions (store s))"
  shows "reject_transfer r tid s =
     (Inl (HTTPException (InsufficientFunds (balance a) (req_amount r))),
      s\<lparr>store := (store s)\<lparr>transactions := transactions (store s) @ [new_transaction r tid FAILED]\<rparr>,
        objects := Map.empty, pending := [], log := log s @ [Commit]\<rparr>)"
proof -
  let ?t = "new_transaction r tid FAILED"
  have tid: "transaction_id ?t = tid" by (simp add: new_transaction_def)
  have same: "accounts (store s) ++ objects s = accounts (store s)"
    using assms(2,3,4) by (auto simp: map_add_def fun_eq_iff)
  have c: "commit (add (InsertTransaction ?t) s) =
     (None, s\<lparr>store := (store s)\<lparr>transactions := transactions (store s) @ [?t]\<rparr>,
              objects := Map.empty, pending := [], log := log s @ [Commit]\<rparr>)"
    using assms(5,6) by (subst commit_insert_fresh) (simp_all add: tid same)
  show ?thesis
    unfolding reject_transfer_def Let_def assms(1)[symmetric]
    by (simp only: c prod.case option.case) (simp add: reload_balance_def assms(2))
qed

lemma reject_transfer_duplicate:
  assumes "pending s = []" "tid \<in> transaction_id ` set (transactions (store s))"
  shows "reject_transfer r tid s =
     (Inl (Exception IntegrityError),
      s\<lparr>pending := [InsertTransaction (new_transaction r tid FAILED)],
        log := log s @ [CommitRejected]\<rparr>)"
proof -
  have "transaction_id (new_transaction r tid FAILED) = tid" by (simp add: new_transaction_def)
  then show ?thesis
    unfolding reject_transfer_def Let_def
    using assms by (simp add: commit_insert_duplicate)
qed

lemma complete_transfer_duplicate:
  assumes "x = req_from_account_id r" "y = req_to_account_id r" "x \<noteq> y"
    and "objects s = [x \<mapsto> a, y \<mapsto> b]" "pending s = []"
    and "tid \<in> transaction_id ` set (transactions (store s))"
  shows "\<exists>s'. complete_transfer r tid s = (Inl (Exception IntegrityError), s') \<and>
           store s' = store s \<and> log s' = log s @ [ReadBalance x, ReadBalance y, CommitRejected]"
proof -
  let ?t = "new_transaction r tid COMPLETED"
  have t: "(new_transaction r tid PENDING)\<lparr>status := COMPLETED\<rparr> = ?t"
    by (simp add: new_transaction_def)
  have tid: "transaction_id ?t = tid" by (simp add: new_transaction_def)
  let ?s4 = "s\<lparr>objects := [x \<mapsto> a\<lparr>balance := balance a - req_amount r\<rparr>,
                             y \<mapsto> b\<lparr>balance := balance b + req_amount r\<rparr>],
               log := log s @ [ReadBalance x, ReadBalance y]\<rparr>"
  have c: "commit (add (InsertTransaction ?t) ?s4) =
     (Some IntegrityError, ?s4\<lparr>pending := [InsertTransaction ?t],
                               log := log ?s4 @ [CommitRejected]\<rparr>)"
    using assms(5,6) by (subst commit_insert_duplicate) (simp_all add: tid)
  have r1: "read_balance x s = (Inr (balance a), s\<lparr>log := log s @ [ReadBalance x]\<rparr>)"
    using assms(3,4) by (simp add: read_balance_def)
  let ?s2 = "s\<lparr>objects := [x \<mapsto> a\<lparr>balance := balance a - req_amount r\<rparr>, y \<mapsto> b],
               log := log s @ [ReadBalance x]\<rparr>"
  have w1: "write_balance x (balance a - req_amount r) (s\<lparr>log := log s @ [ReadBalance x]\<rparr>) = ?s2"
    using assms(3,4) by (simp add: write_balance_def fun_upd_twist)
  have r2: "read_balance y ?s2 = (Inr (balance b), ?s2\<lparr>log := log s @ [ReadBalance x, ReadBalance y]\<rparr>)"
    using assms(3) by (simp add: read_balance_def)
  have w2: "write_balance y (balance b + req_amount r)
              (?s2\<lparr>log := log s @ [ReadBalance x, ReadBalance y]\<rparr>) = ?s4"
    using assms(3) by (simp add: write_balance_def)
  show ?thesis
    unfolding complete_transfer_def Let_def t assms(1)[symmetric] assms(2)[symmetric]
    by (simp only: r1 w1 r2 w2 c prod.case sum.case option.case) simp
qed

lemma lock_missing:
  assumes "objects s = Map.empty"
    and "accounts (store s) x = None \<or> accounts (store s) y = None"
  shows "\<exists>k s1. lock_accounts (sorted_ids x y) {} s = (Inl (HTTPException (AccountNotFound k)), s1) \<and>
           k \<in> {x, y} \<and> accounts (store s) k = None \<and>
           store s1 = store s \<and> pending s1 = pending s \<and>
           (\<exists>ks. log s1 = log s @ map SelectForUpdate ks \<and> (ks = take 1 (sorted_ids x y) \<or> ks = sorted_ids x y))"
proof -
  have one: "lock_accounts (k # ks) L s = (Inl (HTTPException (AccountNotFound k)), s\<lparr>log := log s @ [SelectForUpdate k]\<rparr>)"
    if "accounts (store s) k = None" for k ks L
    using that by (simp add: query_account_for_update_def load_account_def)
  have two: "lock_accounts [k, k'] L s =
      (Inl (HTTPException (AccountNotFound k')), s\<lparr>objects := [k \<mapsto> a], log := log s @ [SelectForUpdate k, SelectForUpdate k']\<rparr>)"
    if "accounts (store s) k = Some a" "accounts (store s) k' = None" for k k' L a
    using that assms(1) by (simp add: query_account_for_update_def load_account_def)
  obtain u v where uv: "sorted_ids x y = [u, v]" "{u, v} = {x, y}"
    by (cases "x \<le> y") (auto simp: sorted_ids_cases)
  have miss: "accounts (store s) u = None \<or> accounts (store s) v = None"
    using assms(2) uv(2) by (metis insert_iff singletonD)
  show ?thesis
  proof (cases "accounts (store s) u")
    case None
    show ?thesis
      unfolding uv(1) one [OF None]
      using None uv(2) by (intro exI [of _ u] exI [of _ "s\<lparr>log := log s @ [SelectForUpdate u]\<rparr>"]) (auto intro: exI [of _ "[u]"])
  next
    case (Some a)
    then have v: "accounts (store s) v = None" using miss by simp
    show ?thesis
      unfolding uv(1) two [OF Some v]
      using v uv(2) by (intro exI [of _ v] exI [of _ "s\<lparr>objects := [u \<mapsto> a], log := log s @ [SelectForUpdate u, SelectForUpdate v]\<rparr>"]) (auto intro: exI [of _ "[u, v]"])
  qed
qed


lemma transfer_try_locked:
  assumes "x = req_from_account_id r" "y = req_to_account_id r" "x \<noteq> y"
    and "accounts (store s) x = Some a" "accounts (store s) y = Some b"
    and "objects s = Map.empty"
    and "s2 = s\<lparr>objects := [x \<mapsto> a, y \<mapsto> b],
                 log := log s @ map SelectForUpdate (sorted_ids x y) @ [ReadBalance x]\<rparr>"
  shows "transfer_try r tid s =
           (if balance a < req_amount r then reject_transfer r tid s2
            else complete_transfer r tid s2)"
proof -
  let ?s1 = "s\<lparr>objects := [x \<mapsto> a, y \<mapsto> b],
                log := log s @ map SelectForUpdate (sorted_ids x y)\<rparr>"
  have l: "lock_accounts (sorted_ids x y) {} s = (Inr {x, y}, ?s1)"
    using assms(3,4,5,6) by (rule lock_sorted)
  have rb: "read_balance x ?s1 = (Inr (balance a), s2)"
    using assms(3) unfolding assms(7) by (simp add: read_balance_def)
  show ?thesis
    unfolding transfer_try_def Let_def assms(1)[symmetric] assms(2)[symmetric]
    by (simp only: l rb prod.case sum.case) simp
qed

lemma transfer_try_not_found:
  assumes "x = req_from_account_id r" "y = req_to_account_id r"
    and "objects s = Map.empty"
    and "accounts (store s) x = None \<or> accounts (store s) y = None"
  shows "\<exists>k s1. transfer_try r tid s = (Inl (HTTPException (AccountNotFound k)), s1) \<and>
           k \<in> {x, y} \<and> accounts (store s) k = None \<and>
           store s1 = store s \<and> pending s1 = pending s \<and>
           (\<exists>ks. log s1 = log s @ map SelectForUpdate ks \<and>
                 (ks = take 1 (sorted_ids x y) \<or> ks = sorted_ids x y))"
proof -
  from lock_missing [OF assms(3,4)] obtain k s1 where
    l: "lock_accounts (sorted_ids x y) {} s = (Inl (HTTPException (AccountNotFound k)), s1)"
    and rest: "k \<in> {x, y}" "accounts (store s) k = None" "store s1 = store s" "pending s1 = pending s"
      "\<exists>ks. log s1 = log s @ map SelectForUpdate ks \<and>
                 (ks = take 1 (sorted_ids x y) \<or> ks = sorted_ids x y)"
    by blast
  have "transfer_try r tid s = (Inl (HTTPException (AccountNotFound k)), s1)"
    unfolding transfer_try_def Let_def assms(1)[symmetric] assms(2)[symmetric]
    by (simp only: l prod.case sum.case)
  with rest show ?thesis by blast
qed

lemma transfer_except_integrity:
  assumes "tid \<in> transaction_id ` set (transactions (store s))"
  shows "transfer_except r tid (Inl (Exception e), s) =
     (Inl TransferFailed,
      s\<lparr>objects := Map.empty, pending := [InsertTransaction (new_transaction r tid FAILED)],
        log := log s @ [Rollback, CommitRejected]\<rparr>)"
proof -
  have "transaction_id (new_transaction r tid FAILED) = tid" by (simp add: new_transaction_def)
  then have "commit (add (InsertTransaction (new_transaction r tid FAILED)) (rollback s)) =
     (Some IntegrityError, (rollback s)\<lparr>pending := [InsertTransaction (new_transaction r tid FAILED)],
         log := log (rollback s) @ [CommitRejected]\<rparr>)"
    using assms by (subst commit_insert_duplicate) (simp_all add: rollback_def)
  then show ?thesis
    by (simp add: transfer_except_def Let_def rollback_def)
qed

lemma gate_passes:
  assumes "req_from_account_id r \<noteq> req_to_account_id r"
    and "tid = resolve_transaction_id (req_transaction_id r) uuid"
    and "tid \<notin> transaction_id ` set (transactions l)"
  shows "create_transfer_racing concurrent uuid r (SessionLocal l) =
     transfer_except r tid
       (transfer_try r tid \<lparr>store = concurrent l, objects = Map.empty, pending = [],
                            log = [SelectTransaction tid]\<rparr>)"
  using assms
  by (simp add: create_transfer_racing_def query_transaction_def SessionLocal_def Let_def
      find_None_ids [symmetric])

lemma racing_completed:
  assumes "x = req_from_account_id r" "y = req_to_account_id r" "x \<noteq> y"
    and "tid = resolve_transaction_id (req_transaction_id r) uuid"
    and "tid \<notin> transaction_id ` set (transactions l)"
    and "accounts (concurrent l) x = Some a" "accounts (concurrent l) y = Some b"
    and "tid \<notin> transaction_id ` set (transactions (concurrent l))"
    and "req_amount r \<le> balance a"
  shows "create_transfer_racing concurrent uuid r (SessionLocal l) =
     (Inr (new_transaction r tid COMPLETED),
      \<lparr>store = \<lparr>accounts = (accounts (concurrent l))
                    (x \<mapsto> a\<lparr>balance := balance a - req_amount r\<rparr>,
                     y \<mapsto> b\<lparr>balance := balance b + req_amount r\<rparr>),
                 transactions = transactions (concurrent l) @ [new_transaction r tid COMPLETED]\<rparr>,
       objects = Map.empty, pending = [],
       log = SelectTransaction tid # map SelectForUpdate (sorted_ids x y) @
             [ReadBalance x, ReadBalance x, ReadBalance y, Commit]\<rparr>)"
proof -
  let ?s = "\<lparr>store = concurrent l, objects = Map.empty, pending = [],
             log = [SelectTransaction tid]\<rparr>"
  let ?s2 = "?s\<lparr>objects := [x \<mapsto> a, y \<mapsto> b],
                 log := log ?s @ map SelectForUpdate (sorted_ids x y) @ [ReadBalance x]\<rparr>"
  have "transfer_try r tid ?s = complete_transfer r tid ?s2"
    using assms(9) by (subst transfer_try_locked [OF assms(1,2,3), of ?s a b ?s2]) (simp_all add: assms(6,7))
  also have "\<dots> = (Inr (new_transaction r tid COMPLETED),
      ?s2\<lparr>store := \<lparr>accounts = (accounts (store ?s2))
                     (x \<mapsto> a\<lparr>balance := balance a - req_amount r\<rparr>,
                      y \<mapsto> b\<lparr>balance := balance b + req_amount r\<rparr>),
                   transactions = transactions (store ?s2) @ [new_transaction r tid COMPLETED]\<rparr>,
        objects := Map.empty, pending := [],
        log := log ?s2 @ [ReadBalance x, ReadBalance y, Commit]\<rparr>)"
    by (rule complete_transfer_commits [OF assms(1,2,3)]) (simp_all add: assms(8))
  finally show ?thesis
    unfolding gate_passes [OF assms(3) [unfolded assms(1,2)] assms(4,5)]
    by (simp add: transfer_except_def)
qed

lemma racing_insufficient:
  assumes "x = req_from_account_id r" "y = req_to_account_id r" "x \<noteq> y"
    and "tid = resolve_transaction_id (req_transaction_id r) uuid"
    and "tid \<notin> transaction_id ` set (transactions l)"
    and "accounts (concurrent l) x = Some a" "accounts (concurrent l) y = Some b"
    and "tid \<notin> transaction_id ` set (transactions (concurrent l))"
    and "balance a < req_amount r"
  shows "create_transfer_racing concurrent uuid r (SessionLocal l) =
     (Inl (InsufficientFunds (balance a) (req_amount r)),
      \<lparr>store = (concurrent l)\<lparr>transactions :=
                  transactions (concurrent l) @ [new_transaction r tid FAILED]\<rparr>,
       objects = Map.empty, pending = [],
       log = SelectTransaction tid # map SelectForUpdate (sorted_ids x y) @
             [ReadBalance x, Commit, Rollback]\<rparr>)"
proof -
  let ?s = "\<lparr>store = concurrent l, objects = Map.empty, pending = [],
             log = [SelectTransaction tid]\<rparr>"
  let ?s2 = "?s\<lparr>objects := [x \<mapsto> a, y \<mapsto> b],
                 log := log ?s @ map SelectForUpdate (sorted_ids x y) @ [ReadBalance x]\<rparr>"
  have "transfer_try r tid ?s = reject_transfer r tid ?s2"
    using assms(9)
    by (subst transfer_try_locked [OF assms(1,2,3), of ?s a b ?s2]) (simp_all add: assms(6,7))
  also have "\<dots> = (Inl (HTTPException (InsufficientFunds (balance a) (req_amount r))),
      ?s2\<lparr>store := (store ?s2)\<lparr>transactions :=
                      transactions (store ?s2) @ [new_transaction r tid FAILED]\<rparr>,
        objects := Map.empty, pending := [], log := log ?s2 @ [Commit]\<rparr>)"
    by (rule reject_transfer_commits [OF assms(1), where y = y and b = b])
       (simp_all add: assms(6,7,8))
  finally show ?thesis
    unfolding gate_passes [OF assms(3) [unfolded assms(1,2)] assms(4,5)]
    by (simp add: transfer_except_def rollback_def)
qed

lemma racing_rejected_at_commit:
  assumes "x = req_from_account_id r" "y = req_to_account_id r" "x \<noteq> y"
    and "tid = resolve_transaction_id (req_transaction_id r) uuid"
    and "tid \<notin> transaction_id ` set (transactions l)"
    and "accounts (concurrent l) x = Some a" "accounts (concurrent l) y = Some b"
    and "tid \<in> transaction_id ` set (transactions (concurrent l))"
  shows "\<exists>s'. create_transfer_racing concurrent uuid r (SessionLocal l) = (Inl TransferFailed, s') \<and>
           store s' = concurrent l \<and>
           log s' = SelectTransaction tid # map SelectForUpdate (sorted_ids x y) @
                    (if balance a < req_amount r
                     then [ReadBalance x, CommitRejected, Rollback, CommitRejected]
                     else [ReadBalance x, ReadBalance x, ReadBalance y,
                           CommitRejected, Rollback, CommitRejected])"
proof -
  let ?s = "\<lparr>store = concurrent l, objects = Map.empty, pending = [],
             log = [SelectTransaction tid]\<rparr>"
  let ?s2 = "?s\<lparr>objects := [x \<mapsto> a, y \<mapsto> b],
                 log := log ?s @ map SelectForUpdate (sorted_ids x y) @ [ReadBalance x]\<rparr>"
  have tr: "transfer_try r tid ?s =
           (if balance a < req_amount r then reject_transfer r tid ?s2
            else complete_transfer r tid ?s2)"
    by (rule transfer_try_locked [OF assms(1,2,3), of ?s a b ?s2]) (simp_all add: assms(6,7))
  show ?thesis
  proof (cases "balance a < req_amount r")
    case True
    have "reject_transfer r tid ?s2 =
      (Inl (Exception IntegrityError),
       ?s2\<lparr>pending := [InsertTransaction (new_transaction r tid FAILED)],
          log := log ?s2 @ [CommitRejected]\<rparr>)"
      by (rule reject_transfer_duplicate) (simp_all add: assms(8))
    with True tr show ?thesis
      unfolding gate_passes [OF assms(3) [unfolded assms(1,2)] assms(4,5)]
      by (simp add: transfer_except_integrity assms(8))
  next
    case False
    obtain s3 where c: "complete_transfer r tid ?s2 = (Inl (Exception IntegrityError), s3)"
      and s3: "store s3 = store ?s2" "log s3 = log ?s2 @ [ReadBalance x, ReadBalance y, CommitRejected]"
      using complete_transfer_duplicate [OF assms(1,2,3), of ?s2 a b tid]
      by (auto simp: assms(8))
    have "tid \<in> transaction_id ` set (transactions (store s3))"
      using s3(1) assms(8) by simp
    from transfer_except_integrity [OF this, of r IntegrityError] False tr c s3 show ?thesis
      unfolding gate_passes [OF assms(3) [unfolded assms(1,2)] assms(4,5)]
      by simp
  qed
qed

lemma racing_not_found:
  assumes "x = req_from_account_id r" "y = req_to_account_id r" "x \<noteq> y"
    and "tid = resolve_transaction_id (req_transaction_id r) uuid"
    and "tid \<notin> transaction_id ` set (transactions l)"
    and "accounts (concurrent l) x = None \<or> accounts (concurrent l) y = None"
  shows "\<exists>k s' ks. create_transfer_racing concurrent uuid r (SessionLocal l) =
             (Inl (AccountNotFound k), s') \<and>
           k \<in> {x, y} \<and> accounts (concurrent l) k = None \<and> store s' = concurrent l \<and>
           log s' = SelectTransaction tid # map SelectForUpdate ks @ [Rollback] \<and>
           (ks = take 1 (sorted_ids x y) \<or> ks = sorted_ids x y)"
proof -
  let ?s = "\<lparr>store = concurrent l, objects = Map.empty, pending = [],
             log = [SelectTransaction tid]\<rparr>"
  from transfer_try_not_found [OF assms(1,2), of ?s tid] assms(6)
  obtain k s1 ks where t: "transfer_try r tid ?s = (Inl (HTTPException (AccountNotFound k)), s1)"
    and k: "k \<in> {x, y}" "accounts (concurrent l) k = None"
    and s1: "store s1 = concurrent l" "log s1 = [SelectTransaction tid] @ map SelectForUpdate ks"
      "ks = take 1 (sorted_ids x y) \<or> ks = sorted_ids x y"
    by auto
  have "create_transfer_racing concurrent uuid r (SessionLocal l) =
          (Inl (AccountNotFound k), rollback s1)"
    unfolding gate_passes [OF assms(3) [unfolded assms(1,2)] assms(4,5)] t
    by (simp add: transfer_except_def)
  moreover have "store (rollback s1) = concurrent l"
    "log (rollback s1) = SelectTransaction tid # map SelectForUpdate ks @ [Rollback]"
    using s1 by (simp_all add: rollback_def)
  ultimately show ?thesis using k s1(3) by blast
qed

lemma racing_same_account:
  assumes "req_from_account_id r = req_to_account_id r"
  shows "create_transfer_racing concurrent uuid r (SessionLocal l) = (Inl SameAccount, SessionLocal l)"
  using assms by (simp add: create_transfer_racing_def)

lemma racing_exists:
  assumes "req_from_account_id r \<noteq> req_to_account_id r"
    and "tid = resolve_transaction_id (req_transaction_id r) uuid"
    and "tid \<in> transaction_id ` set (transactions l)"
  shows "create_transfer_racing concurrent uuid r (SessionLocal l) =
     (Inl (TransactionExists tid),
      \<lparr>store = l, objects = Map.empty, pending = [], log = [SelectTransaction tid]\<rparr>)"
proof -
  from assms(3) obtain t where "find (\<lambda>t. transaction_id t = tid) (transactions l) = Some t"
    using find_None_ids [of tid "transactions l"] by auto
  then show ?thesis
    using assms(1,2)
    by (simp add: create_transfer_racing_def query_transaction_def SessionLocal_def Let_def)
qed

lemma idempotency_ledger_eq:
  "idempotency_ledger =
     \<lparr>accounts = [''TEST001'' \<mapsto> \<lparr>account_id = ''TEST001'', owner_name = ''Source'', balance = 90000\<rparr>,
                  ''TEST002'' \<mapsto> \<lparr>account_id = ''TEST002'', owner_name = ''Dest'', balance = 60000\<rparr>],
      transactions = [\<lparr>transaction_id = ''IDEMPOTENT_TEST_001'', from_account_id = ''TEST001'',
         to_account_id = ''TEST002'', amount = 10000, status = COMPLETED, description = None\<rparr>]\<rparr>"
  unfolding idempotency_ledger_def create_transfer_def
  by (subst racing_completed [where x = "''TEST001''" and y = "''TEST002''"
        and tid = "''IDEMPOTENT_TEST_001''"
        and a = "\<lparr>account_id = ''TEST001'', owner_name = ''Source'', balance = 100000\<rparr>"
        and b = "\<lparr>account_id = ''TEST002'', owner_name = ''Dest'', balance = 50000\<rparr>"])
     (simp_all add: transfer_request_def two_accounts_def resolve_transaction_id_def
        new_transaction_def)

lemma racing_cases [consumes 4, case_names same_account exists not_found rejected insufficient completed]:
  assumes "x = req_from_account_id r" "y = req_to_account_id r"
    and "tid = resolve_transaction_id (req_transaction_id r) uuid"
    and "res = create_transfer_racing concurrent uuid r (SessionLocal l)"
  obtains
    "x = y" "res = (Inl SameAccount, SessionLocal l)"
  | "x \<noteq> y" "tid \<in> transaction_id ` set (transactions l)"
      "res = (Inl (TransactionExists tid),
              \<lparr>store = l, objects = Map.empty, pending = [], log = [SelectTransaction tid]\<rparr>)"
  | k ks where "x \<noteq> y" "tid \<notin> transaction_id ` set (transactions l)"
      "k \<in> {x, y}" "accounts (concurrent l) k = None"
      "fst res = Inl (AccountNotFound k)" "store (snd res) = concurrent l"
      "log (snd res) = SelectTransaction tid # map SelectForUpdate ks @ [Rollback]"
      "ks = take 1 (sorted_ids x y) \<or> ks = sorted_ids x y"
  | a b where "x \<noteq> y" "tid \<notin> transaction_id ` set (transactions l)"
      "accounts (concurrent l) x = Some a" "accounts (concurrent l) y = Some b"
      "tid \<in> transaction_id ` set (transactions (concurrent l))"
      "fst res = Inl TransferFailed" "store (snd res) = concurrent l"
      "log (snd res) = SelectTransaction tid # map SelectForUpdate (sorted_ids x y) @
                    (if balance a < req_amount r
                     then [ReadBalance x, CommitRejected, Rollback, CommitRejected]
                     else [ReadBalance x, ReadBalance x, ReadBalance y,
                           CommitRejected, Rollback, CommitRejected])"
  | a b where "x \<noteq> y" "tid \<notin> transaction_id ` set (transactions l)"
      "accounts (concurrent l) x = Some a" "accounts (concurrent l) y = Some b"
      "tid \<notin> transaction_id ` set (transactions (concurrent l))"
      "balance a < req_amount r"
      "res = (Inl (InsufficientFunds (balance a) (req_amount r)),
        \<lparr>store = (concurrent l)\<lparr>transactions :=
                  transactions (concurrent l) @ [new_transaction r tid FAILED]\<rparr>,
         objects = Map.empty, pending = [],
         log = SelectTransaction tid # map SelectForUpdate (sorted_ids x y) @
             [ReadBalance x, Commit, Rollback]\<rparr>)"
  | a b where "x \<noteq> y" "tid \<notin> transaction_id ` set (transactions l)"
      "accounts (concurrent l) x = Some a" "accounts (concurrent l) y = Some b"
      "tid \<notin> transaction_id ` set (transactions (concurrent l))"
      "req_amount r \<le> balance a"
      "res = (Inr (new_transaction r tid COMPLETED),
        \<lparr>store = \<lparr>accounts = (accounts (concurrent l))
                    (x \<mapsto> a\<lparr>balance := balance a - req_amount r\<rparr>,
                     y \<mapsto> b\<lparr>balance := balance b + req_amount r\<rparr>),
                 transactions = transactions (concurrent l) @ [new_transaction r tid COMPLETED]\<rparr>,
         objects = Map.empty, pending = [],
         log = SelectTransaction tid # map SelectForUpdate (sorted_ids x y) @
             [ReadBalance x, ReadBalance x, ReadBalance y, Commit]\<rparr>)"
proof (cases "x = y")
  case True
  then have "res = (Inl SameAccount, SessionLocal l)"
    unfolding assms(4) using assms(1,2) by (simp add: racing_same_account)
  with True show ?thesis by (rule that(1))
next
  case ne: False
  then have ne': "req_from_account_id r \<noteq> req_to_account_id r" using assms(1,2) by simp
  show ?thesis
  proof (cases "tid \<in> transaction_id ` set (transactions l)")
    case True
    show ?thesis
      by (rule that(2) [OF ne True]) (simp only: assms(4) racing_exists [OF ne' assms(3) True])
  next
    case fresh: False
    show ?thesis
    proof (cases "accounts (concurrent l) x = None \<or> accounts (concurrent l) y = None")
      case True
      from racing_not_found [where concurrent = concurrent and l = l, OF assms(1,2) ne assms(3) fresh True]
      obtain k s' ks where "create_transfer_racing concurrent uuid r (SessionLocal l) =
             (Inl (AccountNotFound k), s')"
           "k \<in> {x, y}" "accounts (concurrent l) k = None" "store s' = concurrent l"
           "log s' = SelectTransaction tid # map SelectForUpdate ks @ [Rollback]"
           "ks = take 1 (sorted_ids x y) \<or> ks = sorted_ids x y"
        by blast
      then show ?thesis
        using assms(4) by (intro that(3) [OF ne fresh, of k ks]) simp_all
    next
      case False
      then obtain a b where ab: "accounts (concurrent l) x = Some a" "accounts (concurrent l) y = Some b"
        by auto
      show ?thesis
      proof (cases "tid \<in> transaction_id ` set (transactions (concurrent l))")
        case True
        from racing_rejected_at_commit [where concurrent = concurrent and l = l, OF assms(1,2) ne assms(3) fresh ab True]
        obtain s' where "create_transfer_racing concurrent uuid r (SessionLocal l) = (Inl TransferFailed, s')"
           "store s' = concurrent l"
           "log s' = SelectTransaction tid # map SelectForUpdate (sorted_ids x y) @
                    (if balance a < req_amount r
                     then [ReadBalance x, CommitRejected, Rollback, CommitRejected]
                     else [ReadBalance x, ReadBalance x, ReadBalance y,
                           CommitRejected, Rollback, CommitRejected])"
          by blast
        then show ?thesis
          using assms(4) by (intro that(4) [OF ne fresh ab True]) simp_all
      next
        case fresh': False
        show ?thesis
        proof (cases "balance a < req_amount r")
          case True
          show ?thesis
            by (rule that(5) [OF ne fresh ab fresh' True])
               (simp only: assms(4) racing_insufficient [where concurrent = concurrent and l = l, OF assms(1,2) ne assms(3) fresh ab fresh' True])
        next
          case False
          then have le: "req_amount r \<le> balance a" by simp
          show ?thesis
            by (rule that(6) [OF ne fresh ab fresh' le])
               (simp only: assms(4) racing_completed [where concurrent = concurrent and l = l, OF assms(1,2) ne assms(3) fresh ab fresh' le])
        qed
      qed
    qed
  qed
qed

lemma locks_of_locks [simp]: "locks_of (map SelectForUpdate ks @ es) = ks @ locks_of es"
  by (induction ks) simp_all

lemma unit_of_work_locks [simp]: "unit_of_work (map SelectForUpdate ks @ es) = unit_of_work es"
  by (induction ks) simp_all

lemma before_first_read_locks [simp]:
  "before_first_read (map SelectForUpdate ks @ es) = map SelectForUpdate ks @ before_first_read es"
  by (induction ks) simp_all

lemma reads_balance_locks [simp]: "reads_balance (map SelectForUpdate ks @ es) = reads_balance es"
  by (induction ks) simp_all

lemma locks_of_only_locks [simp]: "locks_of (map SelectForUpdate ks) = ks"
  using locks_of_locks [of ks "[]"] by simp

lemma sorted_ids_props:
  "sorted (sorted_ids x y)" "set (sorted_ids x y) = {x, y}" "sorted_ids x y = sorted_ids y x"
  by (auto simp: sorted_ids_cases)

lemma winning_thread_eq:
  "winning_thread (two_accounts ''IDEMPOTENT_SRC'' 100000 ''IDEMPOTENT_DEST'' 0) =
     \<lparr>accounts = [''IDEMPOTENT_SRC'' \<mapsto> \<lparr>account_id = ''IDEMPOTENT_SRC'', owner_name = ''Source'', balance = 90000\<rparr>,
                  ''IDEMPOTENT_DEST'' \<mapsto> \<lparr>account_id = ''IDEMPOTENT_DEST'', owner_name = ''Dest'', balance = 10000\<rparr>],
      transactions = [\<lparr>transaction_id = ''DUPLICATE_TEST_001'', from_account_id = ''IDEMPOTENT_SRC'',
         to_account_id = ''IDEMPOTENT_DEST'', amount = 10000, status = COMPLETED, description = None\<rparr>]\<rparr>"
  unfolding winning_thread_def create_transfer_def duplicate_request_def
  by (subst racing_completed [where x = "''IDEMPOTENT_SRC''" and y = "''IDEMPOTENT_DEST''"
        and tid = "''DUPLICATE_TEST_001''"
        and a = "\<lparr>account_id = ''IDEMPOTENT_SRC'', owner_name = ''Source'', balance = 100000\<rparr>"
        and b = "\<lparr>account_id = ''IDEMPOTENT_DEST'', owner_name = ''Dest'', balance = 0\<rparr>"])
     (simp_all add: transfer_request_def two_accounts_def resolve_transaction_id_def
        new_transaction_def)

lemma duplicate_request_fields:
  "req_from_account_id duplicate_request = ''IDEMPOTENT_SRC''"
  "req_to_account_id duplicate_request = ''IDEMPOTENT_DEST''"
  "req_amount duplicate_request = 10000"
  "resolve_transaction_id (req_transaction_id duplicate_request) u = ''DUPLICATE_TEST_001''"
  by (simp_all add: duplicate_request_def transfer_request_def resolve_transaction_id_def)

lemma racing_log_shape:
  assumes "x = req_from_account_id r" "y = req_to_account_id r"
    and "tid = resolve_transaction_id (req_transaction_id r) uuid"
    and "lg = log (snd (create_transfer_racing concurrent uuid r (SessionLocal l)))"
  shows "(locks_of lg = [] \<or> locks_of lg = take 1 (sorted_ids x y) \<or> locks_of lg = sorted_ids x y) \<and>
         (reads_balance lg \<longrightarrow> locks_of (before_first_read lg) = sorted_ids x y) \<and>
         (x \<noteq> y \<and> tid \<notin> transaction_id ` set (transactions l) \<and>
          accounts (concurrent l) x \<noteq> None \<and> accounts (concurrent l) y \<noteq> None
            \<longrightarrow> locks_of lg = sorted_ids x y \<and> reads_balance lg)"
  using assms(1,2,3) refl
proof (cases rule: racing_cases [where concurrent = concurrent and l = l])
  case same_account
  then have "lg = []" using assms(4) by (simp add: SessionLocal_def)
  with same_account(1) show ?thesis by simp
next
  case exists
  then have "lg = [SelectTransaction tid]" using assms(4) by simp
  with exists(2) show ?thesis by simp
next
  case (not_found k ks)
  then have lg: "lg = SelectTransaction tid # map SelectForUpdate ks @ [Rollback]"
    using assms(4) by simp
  have locks: "locks_of lg = ks" and reads: "\<not> reads_balance lg"
    unfolding lg by simp_all
  have missing: "accounts (concurrent l) x = None \<or> accounts (concurrent l) y = None"
    using not_found(3,4) by auto
  show ?thesis
    using locks reads missing not_found(8) by auto
next
  case (rejected a b)
  then have lg: "lg = SelectTransaction tid # map SelectForUpdate (sorted_ids x y) @
                    (if balance a < req_amount r
                     then [ReadBalance x, CommitRejected, Rollback, CommitRejected]
                     else [ReadBalance x, ReadBalance x, ReadBalance y,
                           CommitRejected, Rollback, CommitRejected])"
    using assms(4) by simp
  have "locks_of lg = sorted_ids x y" "reads_balance lg"
       "locks_of (before_first_read lg) = sorted_ids x y"
    unfolding lg by simp_all
  then show ?thesis by simp
next
  case (insufficient a b)
  then have lg: "lg = SelectTransaction tid # map SelectForUpdate (sorted_ids x y) @
             [ReadBalance x, Commit, Rollback]"
    using assms(4) by simp
  have "locks_of lg = sorted_ids x y" "reads_balance lg"
       "locks_of (before_first_read lg) = sorted_ids x y"
    unfolding lg by simp_all
  then show ?thesis by simp
next
  case (completed a b)
  then have lg: "lg = SelectTransaction tid # map SelectForUpdate (sorted_ids x y) @
             [ReadBalance x, ReadBalance x, ReadBalance y, Commit]"
    using assms(4) by simp
  have "locks_of lg = sorted_ids x y" "reads_balance lg"
       "locks_of (before_first_read lg) = sorted_ids x y"
    unfolding lg by simp_all
  then show ?thesis by simp
qed

lemma query_account_fresh:
  "query_account k (SessionLocal l) =
     (case accounts l k of
        None \<Rightarrow> (None, \<lparr>store = l, objects = Map.empty, pending = [], log = [SelectAccount k]\<rparr>)
      | Some row \<Rightarrow> (Some row, \<lparr>store = l, objects = [k \<mapsto> row], pending = [],
                                 log = [SelectAccount k]\<rparr>))"
  by (simp add: query_account_def load_account_def SessionLocal_def split: option.split)

lemma create_account_exists:
  assumes "accounts l (new_account_id d) = Some e"
  shows "respond (create_account d (SessionLocal l)) = (Inl (AccountExists (new_account_id d)), l)"
  using assms by (simp add: create_account_def query_account_fresh respond_def)

lemma create_account_negative:
  assumes "accounts l (new_account_id d) = None" "initial_balance d < 0"
  shows "respond (create_account d (SessionLocal l)) = (Inl NegativeInitialBalance, l)"
  using assms by (simp add: create_account_def query_account_fresh respond_def)

lemma create_account_created:
  assumes "accounts l (new_account_id d) = None" "0 \<le> initial_balance d"
  shows "respond (create_account d (SessionLocal l)) =
     (Inr \<lparr>account_id = new_account_id d, owner_name = new_owner_name d,
           balance = initial_balance d\<rparr>,
      l\<lparr>accounts := (accounts l)(new_account_id d \<mapsto>
           \<lparr>account_id = new_account_id d, owner_name = new_owner_name d,
            balance = initial_balance d\<rparr>)\<rparr>)"
  using assms
  by (simp add: create_account_def query_account_fresh respond_def commit_def add_def Let_def)

lemma parse_AccountCreate_Some:
  assumes "parse_AccountCreate body = Some d"
  shows "0 \<le> initial_balance d" "new_account_id d = body_account_id body"
    "initial_balance d = (case body_initial_balance body of None \<Rightarrow> 0 | Some v \<Rightarrow> v)"
  using assms by (auto simp: parse_AccountCreate_def Let_def split: if_splits)

lemma delete_accounts_not_found:
  assumes "accounts l k = None"
  shows "delete_accounts k l = (Inl (AccountNotFound k), l)"
  using assms by (simp add: delete_accounts_def delete_account_def query_account_fresh respond_def)

lemma delete_accounts_nonzero:
  assumes "accounts l k = Some a" "balance a \<noteq> 0"
  shows "delete_accounts k l = (Inl NonZeroBalance, l)"
  using assms by (simp add: delete_accounts_def delete_account_def query_account_fresh respond_def)

lemma delete_accounts_zero:
  assumes "accounts l k = Some a" "balance a = 0"
  shows "delete_accounts k l = (Inr (), l\<lparr>accounts := (accounts l)(k := None)\<rparr>)"
proof -
  have "(accounts l ++ [k \<mapsto> a])(k := None) = (accounts l)(k := None)"
    by (rule ext) (simp add: map_add_def)
  then show ?thesis
    using assms
    by (simp add: delete_accounts_def delete_account_def query_account_fresh respond_def
        commit_def add_def)
qed


lemma post_accounts_cases:
  "post_accounts body l = (Inl ValidationError, l) \<or>
   (\<exists>d. parse_AccountCreate body = Some d \<and> 0 \<le> initial_balance d \<and>
     (post_accounts body l = (Inl (AccountExists (new_account_id d)), l) \<or>
      accounts l (new_account_id d) = None \<and>
      post_accounts body l =
        (Inr \<lparr>account_id = new_account_id d, owner_name = new_owner_name d,
              balance = initial_balance d\<rparr>,
         l\<lparr>accounts := (accounts l)(new_account_id d \<mapsto>
              \<lparr>account_id = new_account_id d, owner_name = new_owner_name d,
               balance = initial_balance d\<rparr>)\<rparr>)))"
proof (cases "parse_AccountCreate body")
  case None
  then show ?thesis by (simp add: post_accounts_def)
next
  case (Some d)
  then have nn: "0 \<le> initial_balance d" by (rule parse_AccountCreate_Some(1))
  have p: "post_accounts body l = respond (create_account d (SessionLocal l))"
    using Some by (simp add: post_accounts_def)
  show ?thesis
  proof (cases "accounts l (new_account_id d)")
    case None
    from create_account_created [OF None nn] p Some nn None show ?thesis by simp
  next
    case (Some e)
    from create_account_exists [OF Some] p \<open>parse_AccountCreate body = Some d\<close> nn
    show ?thesis by simp
  qed
qed

lemma create_transfer_effect:
  assumes "x = req_from_account_id r" "y = req_to_account_id r"
    and "tid = resolve_transaction_id (req_transaction_id r) uuid"
    and "res = create_transfer uuid r (SessionLocal l)"
  shows "(\<exists>e. fst res = Inl e) \<and> store (snd res) = l \<or>
         (\<exists>e. fst res = Inl e) \<and> tid \<notin> transaction_id ` set (transactions l) \<and>
           store (snd res) = l\<lparr>transactions := transactions l @ [new_transaction r tid FAILED]\<rparr> \<or>
         (\<exists>a b. x \<noteq> y \<and> accounts l x = Some a \<and> accounts l y = Some b \<and>
            req_amount r \<le> balance a \<and> tid \<notin> transaction_id ` set (transactions l) \<and>
            fst res = Inr (new_transaction r tid COMPLETED) \<and>
            store (snd res) =
              \<lparr>accounts = (accounts l)
                    (x \<mapsto> a\<lparr>balance := balance a - req_amount r\<rparr>,
                     y \<mapsto> b\<lparr>balance := balance b + req_amount r\<rparr>),
               transactions = transactions l @ [new_transaction r tid COMPLETED]\<rparr>)"
  using assms(1,2,3) assms(4) [unfolded create_transfer_def]
proof (cases rule: racing_cases [where concurrent = "\<lambda>l. l" and l = l])
  case same_account
  then show ?thesis by (simp add: SessionLocal_def)
next
  case exists
  then show ?thesis by simp
next
  case (not_found k ks)
  then show ?thesis by simp
next
  case (rejected a b)
  then show ?thesis by simp
next
  case (insufficient a b)
  then show ?thesis by simp
next
  case (completed a b)
  then show ?thesis by simp
qed

lemma delete_accounts_effect:
  "snd (delete_accounts k l) = l \<or> snd (delete_accounts k l) = l\<lparr>accounts := (accounts l)(k := None)\<rparr>"
proof (cases "accounts l k")
  case None
  then show ?thesis by (simp add: delete_accounts_not_found)
next
  case (Some a)
  then show ?thesis
    by (cases "balance a = 0") (simp_all add: delete_accounts_zero delete_accounts_nonzero)
qed

lemma post_transfers_eq:
  "post_transfers uuid r l =
     (if valid_TransferRequest r
      then (fst (create_transfer uuid r (SessionLocal l)),
            store (snd (create_transfer uuid r (SessionLocal l))))
      else (Inl ValidationError, l))"
  by (simp add: post_transfers_def split: prod.split)






lemma post_accounts_created:
  assumes "parse_AccountCreate body = Some d" "accounts l (new_account_id d) = None"
  shows "post_accounts body l =
        (Inr \<lparr>account_id = new_account_id d, owner_name = new_owner_name d,
              balance = initial_balance d\<rparr>,
         l\<lparr>accounts := (accounts l)(new_account_id d \<mapsto>
              \<lparr>account_id = new_account_id d, owner_name = new_owner_name d,
               balance = initial_balance d\<rparr>)\<rparr>)"
  using assms create_account_created [OF assms(2) parse_AccountCreate_Some(1) [OF assms(1)]]
  by (simp add: post_accounts_def)

lemma over_balance_accounts:
  "snd (post_accounts (account_body ''OVER_DEST'' ''Dest'' None)
         (snd (post_accounts (account_body ''OVER_SRC'' ''Source'' (Some 10000)) empty_ledger)))
   = two_accounts ''OVER_SRC'' 10000 ''OVER_DEST'' 0"
proof -
  have p1: "parse_AccountCreate (account_body ''OVER_SRC'' ''Source'' (Some 10000)) =
      Some \<lparr>new_account_id = ''OVER_SRC'', new_owner_name = ''Source'', initial_balance = 10000\<rparr>"
    by (simp add: parse_AccountCreate_def account_body_def)
  have p2: "parse_AccountCreate (account_body ''OVER_DEST'' ''Dest'' None) =
      Some \<lparr>new_account_id = ''OVER_DEST'', new_owner_name = ''Dest'', initial_balance = 0\<rparr>"
    by (simp add: parse_AccountCreate_def account_body_def)
  have s1: "snd (post_accounts (account_body ''OVER_SRC'' ''Source'' (Some 10000)) empty_ledger)
      = \<lparr>accounts = [''OVER_SRC'' \<mapsto> \<lparr>account_id = ''OVER_SRC'', owner_name = ''Source'', balance = 10000\<rparr>],
         transactions = []\<rparr>"
    by (subst post_accounts_created [OF p1]) (simp_all add: empty_ledger_def)
  show ?thesis
    unfolding s1
    by (subst post_accounts_created [OF p2]) (simp_all add: two_accounts_def)
qed

lemma over_balance_ledger_eq:
  "over_balance_ledger =
     \<lparr>accounts = [''OVER_SRC'' \<mapsto> \<lparr>account_id = ''OVER_SRC'', owner_name = ''Source'', balance = 10000\<rparr>,
                  ''OVER_DEST'' \<mapsto> \<lparr>account_id = ''OVER_DEST'', owner_name = ''Dest'', balance = 0\<rparr>],
      transactions = [\<lparr>transaction_id = ''uuid-2'', from_account_id = ''OVER_SRC'',
         to_account_id = ''OVER_DEST'', amount = 10001, status = FAILED, description = None\<rparr>]\<rparr>"
proof -
  have "create_transfer ''uuid-2'' (transfer_request ''OVER_SRC'' ''OVER_DEST'' 10001 None)
          (SessionLocal (two_accounts ''OVER_SRC'' 10000 ''OVER_DEST'' 0)) =
     (Inl (InsufficientFunds 10000 10001),
      \<lparr>store = (two_accounts ''OVER_SRC'' 10000 ''OVER_DEST'' 0)\<lparr>transactions :=
                  transactions (two_accounts ''OVER_SRC'' 10000 ''OVER_DEST'' 0) @
                  [new_transaction (transfer_request ''OVER_SRC'' ''OVER_DEST'' 10001 None) ''uuid-2'' FAILED]\<rparr>,
       objects = Map.empty, pending = [],
       log = SelectTransaction ''uuid-2'' # map SelectForUpdate (sorted_ids ''OVER_SRC'' ''OVER_DEST'') @
             [ReadBalance ''OVER_SRC'', Commit, Rollback]\<rparr>)"
    unfolding create_transfer_def
    by (subst racing_insufficient [where x = "''OVER_SRC''" and y = "''OVER_DEST''"
          and tid = "''uuid-2''"
          and a = "\<lparr>account_id = ''OVER_SRC'', owner_name = ''Source'', balance = 10000\<rparr>"
          and b = "\<lparr>account_id = ''OVER_DEST'', owner_name = ''Dest'', balance = 0\<rparr>"])
       (simp_all add: transfer_request_def two_accounts_def resolve_transaction_id_def)
  then show ?thesis
    unfolding over_balance_ledger_def over_balance_accounts
    by (simp add: post_transfers_eq valid_TransferRequest_def two_accounts_def
        new_transaction_def transfer_request_def)
qed

lemma over_balance_ledger_reachable: "reachable over_balance_ledger"
  unfolding over_balance_ledger_def
  by (intro reachable.transferred reachable.created reachable.init) simp

lemma post_accounts_non_negative:
  assumes "non_negative l"
  shows "non_negative (snd (post_accounts body l))"
proof -
  from post_accounts_cases [of body l]
  consider "snd (post_accounts body l) = l"
    | d :: AccountCreate where "0 \<le> initial_balance d"
        "snd (post_accounts body l) = l\<lparr>accounts := (accounts l)(new_account_id d \<mapsto>
              \<lparr>account_id = new_account_id d, owner_name = new_owner_name d,
               balance = initial_balance d\<rparr>)\<rparr>"
    by force
  then show ?thesis
  proof cases
    case 1
    then show ?thesis using assms by simp
  next
    case (2 d)
    show ?thesis
      unfolding 2(2) using assms 2(1) by (auto simp: non_negative_def)
  qed
qed

lemma delete_accounts_non_negative:
  assumes "non_negative l"
  shows "non_negative (snd (delete_accounts k l))"
  using delete_accounts_effect [of k l] assms
  by (auto simp: non_negative_def split: if_splits)

lemma post_transfers_non_negative:
  assumes "non_negative l"
  shows "non_negative (snd (post_transfers uuid r l))"
proof (cases "valid_TransferRequest r")
  case False
  then show ?thesis using assms by (simp add: post_transfers_eq)
next
  case True
  then have pos: "0 < req_amount r" by (simp add: valid_TransferRequest_def)
  let ?l' = "store (snd (create_transfer uuid r (SessionLocal l)))"
  have eq: "snd (post_transfers uuid r l) = ?l'" using True by (simp add: post_transfers_eq)
  from create_transfer_effect [OF refl refl refl refl, of uuid r l]
  consider "?l' = l"
    | "?l' = l\<lparr>transactions := transactions l @
             [new_transaction r (resolve_transaction_id (req_transaction_id r) uuid) FAILED]\<rparr>"
    | a b where "accounts l (req_from_account_id r) = Some a"
        "accounts l (req_to_account_id r) = Some b" "req_amount r \<le> balance a"
        "?l' = \<lparr>accounts = (accounts l)
                    (req_from_account_id r \<mapsto> a\<lparr>balance := balance a - req_amount r\<rparr>,
                     req_to_account_id r \<mapsto> b\<lparr>balance := balance b + req_amount r\<rparr>),
               transactions = transactions l @
                 [new_transaction r (resolve_transaction_id (req_transaction_id r) uuid) COMPLETED]\<rparr>"
    by blast
  then show ?thesis
  proof cases
    case 1
    then show ?thesis using assms eq by simp
  next
    case 2
    then show ?thesis using assms eq by (simp add: non_negative_def)
  next
    case (3 a b)
    have "0 \<le> balance b" using assms 3(2) by (auto simp: non_negative_def)
    then have "0 \<le> balance a - req_amount r" "0 \<le> balance b + req_amount r"
      using 3(3) pos by simp_all
    then show ?thesis
      unfolding eq 3(4) using assms by (auto simp: non_negative_def)
  qed
qed

lemma reachable_non_negative: "reachable l \<Longrightarrow> non_negative l"
proof (induction rule: reachable.induct)
  case init
  then show ?case by (simp add: non_negative_def empty_ledger_def)
next
  case (created l body)
  then show ?case by (simp add: post_accounts_non_negative)
next
  case (deleted l k)
  then show ?case by (simp add: delete_accounts_non_negative)
next
  case (transferred l uuid r)
  then show ?case by (simp add: post_transfers_non_negative)
qed

lemma create_transfer_appends:
  "\<exists>new. transactions (store (snd (create_transfer uuid r (SessionLocal l)))) = transactions l @ new \<and>
         length new \<le> 1 \<and> list_all terminal new"
proof -
  let ?l' = "store (snd (create_transfer uuid r (SessionLocal l)))"
  let ?tid = "resolve_transaction_id (req_transaction_id r) uuid"
  from create_transfer_effect [OF refl refl refl refl, of uuid r l]
  consider "?l' = l"
    | "?l' = l\<lparr>transactions := transactions l @ [new_transaction r ?tid FAILED]\<rparr>"
    | "transactions ?l' = transactions l @ [new_transaction r ?tid COMPLETED]"
    by force
  then show ?thesis
  proof cases
    case 1
    then have "transactions ?l' = transactions l @ []" by simp
    then show ?thesis by (intro exI [of _ "[]"]) simp
  next
    case 2
    then have "transactions ?l' = transactions l @ [new_transaction r ?tid FAILED]" by simp
    then show ?thesis
      by (intro exI [of _ "[new_transaction r ?tid FAILED]"])
         (simp add: terminal_def new_transaction_def)
  next
    case 3
    then show ?thesis
      by (intro exI [of _ "[new_transaction r ?tid COMPLETED]"])
         (simp add: terminal_def new_transaction_def)
  qed
qed

lemma post_accounts_transactions: "transactions (snd (post_accounts body l)) = transactions l"
  using post_accounts_cases [of body l] by auto

lemma delete_accounts_transactions: "transactions (snd (delete_accounts k l)) = transactions l"
  using delete_accounts_effect [of k l] by auto

lemma reachable_terminal: "reachable l \<Longrightarrow> list_all terminal (transactions l)"
proof (induction rule: reachable.induct)
  case init
  then show ?case by (simp add: empty_ledger_def)
next
  case (created l body)
  then show ?case by (simp add: post_accounts_transactions)
next
  case (deleted l k)
  then show ?case by (simp add: delete_accounts_transactions)
next
  case (transferred l uuid r)
  from create_transfer_appends [of uuid r l] transferred.IH
  show ?case by (auto simp: post_transfers_eq)
qed

section \<open>The claims\<close>





text \<open>
  C3, as stated, fails when the request also names the same account twice: the
  same-account check of line 42 comes before the idempotency query of line 52, so the call
  with the stored id \<open>IDEMPOTENT_TEST_001\<close> from \<open>TEST001\<close> to \<open>TEST001\<close> is answered
  "Cannot transfer to the same account" and not "already exists".
\<close>

theorem duplicate_id_same_account_counterexample:
  "''IDEMPOTENT_TEST_001'' \<in> set (map transaction_id (transactions idempotency_ledger)) \<and>
   create_transfer ''uuid-4''
     (transfer_request ''TEST001'' ''TEST001'' 10000 (Some ''IDEMPOTENT_TEST_001''))
     (SessionLocal idempotency_ledger) = (Inl SameAccount, SessionLocal idempotency_ledger) \<and>
   SameAccount \<noteq> TransactionExists ''IDEMPOTENT_TEST_001''"
  by (simp add: idempotency_ledger_eq create_transfer_def create_transfer_racing_def
      transfer_request_def)

text \<open>
  C3, amended. A transfer request between two different accounts whose transaction id (the
  one supplied, or the generated one when none or the empty one is supplied) is the id of a
  stored record is answered "Transaction ... already exists", whatever the status of that
  record: the only statement issued is the idempotency query, nothing is locked, queued or
  committed, and the store, with its balances and its records, is exactly what it was.
\<close>

theorem duplicate_transaction_id_rejected:
  assumes "req_from_account_id r \<noteq> req_to_account_id r"
    and "resolve_transaction_id (req_transaction_id r) uuid \<in> transaction_id ` set (transactions l)"
  shows "create_transfer uuid r (SessionLocal l) =
     (Inl (TransactionExists (resolve_transaction_id (req_transaction_id r) uuid)),
      \<lparr>store = l, objects = Map.empty, pending = [],
       log = [SelectTransaction (resolve_transaction_id (req_transaction_id r) uuid)]\<rparr>)"
  unfolding create_transfer_def
  using assms by (intro racing_exists) simp_all

theorem duplicate_transaction_id_rejected_witness:
  "create_transfer ''uuid-4''
     (transfer_request ''TEST001'' ''TEST002'' 10000 (Some ''IDEMPOTENT_TEST_001''))
     (SessionLocal idempotency_ledger) =
   (Inl (TransactionExists ''IDEMPOTENT_TEST_001''),
    \<lparr>store = idempotency_ledger, objects = Map.empty, pending = [],
     log = [SelectTransaction ''IDEMPOTENT_TEST_001'']\<rparr>)"
  using duplicate_transaction_id_rejected
    [of "transfer_request ''TEST001'' ''TEST002'' 10000 (Some ''IDEMPOTENT_TEST_001'')"
        "''uuid-4''" idempotency_ledger]
  by (simp add: idempotency_ledger_eq transfer_request_def resolve_transaction_id_def)



text \<open>
  C5. Non-negativity. In every store that the public interface can produce from the empty
  database, every account has a balance of at least 0. Each operation preserves this:
  creating an account (the data that reach the handler have a balance of at least 0),
  deleting an account, and a transfer, which debits the source only when the amount is at
  most its balance and credits the destination with an amount the schema requires to be
  positive.
\<close>

theorem balances_never_negative:
  "(reachable l \<longrightarrow> non_negative l) \<and>
   (non_negative l \<longrightarrow>
      non_negative (snd (post_accounts body l)) \<and>
      non_negative (snd (delete_accounts k l)) \<and>
      non_negative (snd (post_transfers uuid r l)))"
  using reachable_non_negative [of l] post_accounts_non_negative [of l body]
    delete_accounts_non_negative [of l k] post_transfers_non_negative [of l uuid r]
  by blast

theorem balances_never_negative_witness:
  "reachable over_balance_ledger \<and>
   accounts over_balance_ledger ''OVER_SRC''
     = Some \<lparr>account_id = ''OVER_SRC'', owner_name = ''Source'', balance = 10000\<rparr> \<and>
   0 \<le> balance \<lparr>account_id = ''OVER_SRC'', owner_name = ''Source'', balance = 10000\<rparr>"
proof -
  have r: "reachable over_balance_ledger" by (rule over_balance_ledger_reachable)
  have a: "accounts over_balance_ledger ''OVER_SRC''
     = Some \<lparr>account_id = ''OVER_SRC'', owner_name = ''Source'', balance = 10000\<rparr>"
    by (simp add: over_balance_ledger_eq)
  from balances_never_negative [of over_balance_ledger] r
  have "non_negative over_balance_ledger" by blast
  with a have "0 \<le> balance \<lparr>account_id = ''OVER_SRC'', owner_name = ''Source'', balance = 10000\<rparr>"
    unfolding non_negative_def by blast
  with r a show ?thesis by blast
qed

text \<open>
  C6. The two rows are locked in the order of \<open>sorted([from_account_id, to_account_id])\<close>:
  the list is ascending, holds exactly the two ids, and is the same when source and
  destination are exchanged. In every run of the handler, whatever other units of work
  commit meanwhile, the rows locked are none, the first of that list, or the whole list in
  that order; when a balance is read, the whole list has been locked before the first
  read; and when the request passes the same-account and idempotency checks and both
  accounts exist, both rows are locked and the balance is read.
\<close>

theorem locks_in_lexicographic_order_before_reads:
  "sorted (sorted_ids (req_from_account_id r) (req_to_account_id r)) \<and>
   set (sorted_ids (req_from_account_id r) (req_to_account_id r))
     = {req_from_account_id r, req_to_account_id r} \<and>
   sorted_ids (req_from_account_id r) (req_to_account_id r)
     = sorted_ids (req_to_account_id r) (req_from_account_id r) \<and>
   (locks_of (log (snd (create_transfer_racing concurrent uuid r (SessionLocal l)))) = [] \<or>
    locks_of (log (snd (create_transfer_racing concurrent uuid r (SessionLocal l))))
      = take 1 (sorted_ids (req_from_account_id r) (req_to_account_id r)) \<or>
    locks_of (log (snd (create_transfer_racing concurrent uuid r (SessionLocal l))))
      = sorted_ids (req_from_account_id r) (req_to_account_id r)) \<and>
   (reads_balance (log (snd (create_transfer_racing concurrent uuid r (SessionLocal l)))) \<longrightarrow>
    locks_of (before_first_read
        (log (snd (create_transfer_racing concurrent uuid r (SessionLocal l)))))
      = sorted_ids (req_from_account_id r) (req_to_account_id r)) \<and>
   (req_from_account_id r \<noteq> req_to_account_id r \<and>
    resolve_transaction_id (req_transaction_id r) uuid \<notin> transaction_id ` set (transactions l) \<and>
    accounts (concurrent l) (req_from_account_id r) \<noteq> None \<and>
    accounts (concurrent l) (req_to_account_id r) \<noteq> None \<longrightarrow>
    locks_of (log (snd (create_transfer_racing concurrent uuid r (SessionLocal l))))
      = sorted_ids (req_from_account_id r) (req_to_account_id r) \<and>
    reads_balance (log (snd (create_transfer_racing concurrent uuid r (SessionLocal l)))))"
  using sorted_ids_props [of "req_from_account_id r" "req_to_account_id r"]
        racing_log_shape [where concurrent = concurrent and l = l and r = r and uuid = uuid,
                          OF refl refl refl refl]
  by blast

theorem locks_in_lexicographic_order_before_reads_witness:
  "locks_of (log (snd (create_transfer_racing id ''uuid-5''
       (transfer_request ''BOB'' ''ALICE'' 5000 None)
       (SessionLocal (two_accounts ''ALICE'' 100000 ''BOB'' 100000))))) = [''ALICE'', ''BOB''] \<and>
   locks_of (log (snd (create_transfer_racing id ''uuid-6''
       (transfer_request ''ALICE'' ''BOB'' 5000 None)
       (SessionLocal (two_accounts ''ALICE'' 100000 ''BOB'' 100000))))) = [''ALICE'', ''BOB'']"
proof -
  let ?l = "two_accounts ''ALICE'' 100000 ''BOB'' 100000"
  let ?ba = "transfer_request ''BOB'' ''ALICE'' 5000 None"
  let ?ab = "transfer_request ''ALICE'' ''BOB'' 5000 None"
  have hba: "req_from_account_id ?ba \<noteq> req_to_account_id ?ba \<and>
      resolve_transaction_id (req_transaction_id ?ba) ''uuid-5''
        \<notin> transaction_id ` set (transactions ?l) \<and>
      accounts (id ?l) (req_from_account_id ?ba) \<noteq> None \<and>
      accounts (id ?l) (req_to_account_id ?ba) \<noteq> None"
    by (simp add: transfer_request_def two_accounts_def)
  have hab: "req_from_account_id ?ab \<noteq> req_to_account_id ?ab \<and>
      resolve_transaction_id (req_transaction_id ?ab) ''uuid-6''
        \<notin> transaction_id ` set (transactions ?l) \<and>
      accounts (id ?l) (req_from_account_id ?ab) \<noteq> None \<and>
      accounts (id ?l) (req_to_account_id ?ab) \<noteq> None"
    by (simp add: transfer_request_def two_accounts_def)
  have sba: "sorted_ids (req_from_account_id ?ba) (req_to_account_id ?ba) = [''ALICE'', ''BOB'']"
    by (simp add: transfer_request_def sorted_ids_def)
  have sab: "sorted_ids (req_from_account_id ?ab) (req_to_account_id ?ab) = [''ALICE'', ''BOB'']"
    by (simp add: transfer_request_def sorted_ids_def)
  from locks_in_lexicographic_order_before_reads
         [where concurrent = id and r = ?ba and uuid = "''uuid-5''" and l = ?l] hba
  have "locks_of (log (snd (create_transfer_racing id ''uuid-5'' ?ba (SessionLocal ?l))))
          = sorted_ids (req_from_account_id ?ba) (req_to_account_id ?ba)"
    by blast
  moreover
  from locks_in_lexicographic_order_before_reads
         [where concurrent = id and r = ?ab and uuid = "''uuid-6''" and l = ?l] hab
  have "locks_of (log (snd (create_transfer_racing id ''uuid-6'' ?ab (SessionLocal ?l))))
          = sorted_ids (req_from_account_id ?ab) (req_to_account_id ?ab)"
    by blast
  ultimately show ?thesis
    unfolding sba sab by (rule conjI)
qed

text \<open>
  C7, as stated, fails. In \<open>test_concurrent_duplicate_transaction_ids\<close> every thread posts
  the same request. A thread whose idempotency query ran before the winner committed finds
  no record, waits for the locks, and has its own insert rejected by the uniqueness
  constraint. That \<open>IntegrityError\<close> is no \<open>HTTPException\<close>, so the clause of line 132
  answers it with 500 "Transfer failed", not with "already exists".
\<close>

theorem concurrent_duplicate_internal_error_counterexample:
  "''DUPLICATE_TEST_001'' \<notin> set (map transaction_id
      (transactions (two_accounts ''IDEMPOTENT_SRC'' 100000 ''IDEMPOTENT_DEST'' 0))) \<and>
   ''DUPLICATE_TEST_001'' \<in> set (map transaction_id
      (transactions (winning_thread (two_accounts ''IDEMPOTENT_SRC'' 100000 ''IDEMPOTENT_DEST'' 0)))) \<and>
   fst (create_transfer_racing winning_thread ''uuid-2'' duplicate_request
          (SessionLocal (two_accounts ''IDEMPOTENT_SRC'' 100000 ''IDEMPOTENT_DEST'' 0)))
     = Inl TransferFailed \<and>
   TransferFailed \<noteq> TransactionExists ''DUPLICATE_TEST_001'' \<and>
   status_code TransferFailed = 500"
proof -
  let ?l = "two_accounts ''IDEMPOTENT_SRC'' 100000 ''IDEMPOTENT_DEST'' 0"
  let ?a = "\<lparr>account_id = ''IDEMPOTENT_SRC'', owner_name = ''Source'', balance = 90000\<rparr>"
  let ?b = "\<lparr>account_id = ''IDEMPOTENT_DEST'', owner_name = ''Dest'', balance = 10000\<rparr>"
  have ne: "''IDEMPOTENT_SRC'' \<noteq> ''IDEMPOTENT_DEST''" by simp
  have before: "''DUPLICATE_TEST_001'' \<notin> transaction_id ` set (transactions ?l)"
    by (simp add: two_accounts_def)
  have src: "accounts (winning_thread ?l) ''IDEMPOTENT_SRC'' = Some ?a"
    by (simp add: winning_thread_eq)
  have dst: "accounts (winning_thread ?l) ''IDEMPOTENT_DEST'' = Some ?b"
    by (simp add: winning_thread_eq)
  have after: "''DUPLICATE_TEST_001'' \<in> transaction_id ` set (transactions (winning_thread ?l))"
    by (simp add: winning_thread_eq)
  from racing_rejected_at_commit [where concurrent = winning_thread and l = ?l
      and r = duplicate_request and uuid = "''uuid-2''",
      OF duplicate_request_fields(1) [symmetric] duplicate_request_fields(2) [symmetric] ne
         duplicate_request_fields(4) [symmetric] before src dst after]
  obtain s' where "create_transfer_racing winning_thread ''uuid-2'' duplicate_request
      (SessionLocal ?l) = (Inl TransferFailed, s')"
    by blast
  then have "fst (create_transfer_racing winning_thread ''uuid-2'' duplicate_request
      (SessionLocal ?l)) = Inl TransferFailed"
    by simp
  moreover have "''DUPLICATE_TEST_001'' \<notin> set (map transaction_id (transactions ?l))"
    using before by simp
  moreover have "''DUPLICATE_TEST_001'' \<in> set (map transaction_id (transactions (winning_thread ?l)))"
    using after by simp
  ultimately show ?thesis by simp
qed

text \<open>
  C7, amended. When the idempotency query finds no record, both accounts exist, and the
  store holds a record with the same transaction id by the time the rows are locked, the
  commit is rejected by the uniqueness constraint: the unit of work is rolled back, the
  attempt of the handler to commit a \<open>FAILED\<close> record is rejected as well and ignored, the
  store stays exactly as the concurrent units of work left it (no balance changes, no
  second record), and the call is answered with the internal error 500 "Transfer failed".
\<close>

theorem commit_rejected_by_uniqueness_is_internal_error:
  assumes "req_from_account_id r \<noteq> req_to_account_id r"
    and "resolve_transaction_id (req_transaction_id r) uuid \<notin> transaction_id ` set (transactions l)"
    and "accounts (concurrent l) (req_from_account_id r) = Some a"
    and "accounts (concurrent l) (req_to_account_id r) = Some b"
    and "resolve_transaction_id (req_transaction_id r) uuid
           \<in> transaction_id ` set (transactions (concurrent l))"
  shows "fst (create_transfer_racing concurrent uuid r (SessionLocal l)) = Inl TransferFailed \<and>
         status_code TransferFailed = 500 \<and>
         store (snd (create_transfer_racing concurrent uuid r (SessionLocal l))) = concurrent l \<and>
         unit_of_work (log (snd (create_transfer_racing concurrent uuid r (SessionLocal l))))
           = [CommitRejected, Rollback, CommitRejected]"
proof -
  from racing_rejected_at_commit [where concurrent = concurrent and l = l,
      OF refl refl assms(1) refl assms(2,3,4,5)]
  obtain s' where "create_transfer_racing concurrent uuid r (SessionLocal l) = (Inl TransferFailed, s')"
    "store s' = concurrent l"
    "log s' = SelectTransaction (resolve_transaction_id (req_transaction_id r) uuid) #
         map SelectForUpdate (sorted_ids (req_from_account_id r) (req_to_account_id r)) @
                    (if balance a < req_amount r
                     then [ReadBalance (req_from_account_id r), CommitRejected, Rollback, CommitRejected]
                     else [ReadBalance (req_from_account_id r), ReadBalance (req_from_account_id r),
                           ReadBalance (req_to_account_id r),
                           CommitRejected, Rollback, CommitRejected])"
    by blast
  then show ?thesis by simp
qed

theorem commit_rejected_by_uniqueness_is_internal_error_witness:
  "fst (create_transfer_racing winning_thread ''uuid-2'' duplicate_request
          (SessionLocal (two_accounts ''IDEMPOTENT_SRC'' 100000 ''IDEMPOTENT_DEST'' 0)))
     = Inl TransferFailed \<and>
   store (snd (create_transfer_racing winning_thread ''uuid-2'' duplicate_request
          (SessionLocal (two_accounts ''IDEMPOTENT_SRC'' 100000 ''IDEMPOTENT_DEST'' 0))))
     = winning_thread (two_accounts ''IDEMPOTENT_SRC'' 100000 ''IDEMPOTENT_DEST'' 0) \<and>
   unit_of_work (log (snd (create_transfer_racing winning_thread ''uuid-2'' duplicate_request
          (SessionLocal (two_accounts ''IDEMPOTENT_SRC'' 100000 ''IDEMPOTENT_DEST'' 0)))))
     = [CommitRejected, Rollback, CommitRejected]"
proof -
  let ?l = "two_accounts ''IDEMPOTENT_SRC'' 100000 ''IDEMPOTENT_DEST'' 0"
  let ?a = "\<lparr>account_id = ''IDEMPOTENT_SRC'', owner_name = ''Source'', balance = 90000\<rparr>"
  let ?b = "\<lparr>account_id = ''IDEMPOTENT_DEST'', owner_name = ''Dest'', balance = 10000\<rparr>"
  have ne: "req_from_account_id duplicate_request \<noteq> req_to_account_id duplicate_request"
    by (simp add: duplicate_request_fields)
  have before: "resolve_transaction_id (req_transaction_id duplicate_request) ''uuid-2''
      \<notin> transaction_id ` set (transactions ?l)"
    by (simp add: duplicate_request_fields two_accounts_def)
  have src: "accounts (winning_thread ?l) (req_from_account_id duplicate_request) = Some ?a"
    by (simp add: duplicate_request_fields winning_thread_eq)
  have dst: "accounts (winning_thread ?l) (req_to_account_id duplicate_request) = Some ?b"
    by (simp add: duplicate_request_fields winning_thread_eq)
  have after: "resolve_transaction_id (req_transaction_id duplicate_request) ''uuid-2''
      \<in> transaction_id ` set (transactions (winning_thread ?l))"
    by (simp add: duplicate_request_fields winning_thread_eq)
  from commit_rejected_by_uniqueness_is_internal_error
         [where concurrent = winning_thread and l = ?l, OF ne before src dst after]
  show ?thesis by blast
qed

text \<open>
  C8. A transfer call appends at most one record to the transactions table, and a record
  it appends has the status \<open>COMPLETED\<close> or \<open>FAILED\<close>; the rows that were there before
  stay as they were, in place. Creating and deleting accounts do not touch the table. So
  in every store the public interface can produce, every record has a terminal status:
  \<open>PENDING\<close>, the status the record is built with before the balances are changed, is
  never committed.
\<close>

theorem committed_records_are_terminal:
  "(\<exists>new. transactions (store (snd (create_transfer uuid r (SessionLocal l))))
            = transactions l @ new \<and>
          length new \<le> 1 \<and> list_all terminal new) \<and>
   transactions (snd (post_accounts body l)) = transactions l \<and>
   transactions (snd (delete_accounts k l)) = transactions l \<and>
   (reachable l \<longrightarrow> list_all terminal (transactions l))"
  using create_transfer_appends [of uuid r l] post_accounts_transactions [of body l]
    delete_accounts_transactions [of k l] reachable_terminal [of l]
  by blast

theorem committed_records_are_terminal_witness:
  "reachable over_balance_ledger \<and>
   map status (transactions over_balance_ledger) = [FAILED] \<and>
   list_all terminal (transactions over_balance_ledger)"
proof -
  have r: "reachable over_balance_ledger" by (rule over_balance_ledger_reachable)
  have s: "map status (transactions over_balance_ledger) = [FAILED]"
    by (simp add: over_balance_ledger_eq)
  from committed_records_are_terminal [of "''uuid-2''"
         "transfer_request ''OVER_SRC'' ''OVER_DEST'' 10001 None" over_balance_ledger
         "account_body ''OVER_SRC'' ''Source'' None" "''OVER_SRC''"] r
  have "list_all terminal (transactions over_balance_ledger)" by blast
  with r s show ?thesis by blast
qed



text \<open>
  C10. The handler \<open>create_account\<close> has a branch that rejects a negative initial balance
  with 400, and that branch is taken when the handler is given such data for a new id. No
  request can reach it through \<open>POST /accounts\<close>: the schema \<open>AccountCreate\<close> only yields
  data with \<open>initial_balance \<ge> 0\<close>, taking 0 when the field is absent, and rejects the rest
  with 422. So the endpoint never answers "Initial balance cannot be negative", and every
  account it creates is stored with a balance of at least 0.
\<close>

theorem negative_initial_balance_unreachable:
  "fst (post_accounts body l) \<noteq> Inl NegativeInitialBalance \<and>
   (\<forall>acc. fst (post_accounts body l) = Inr acc \<longrightarrow>
      0 \<le> balance acc \<and> accounts (snd (post_accounts body l)) (account_id acc) = Some acc) \<and>
   (\<forall>d. parse_AccountCreate body = Some d \<longrightarrow>
      0 \<le> initial_balance d \<and> (body_initial_balance body = None \<longrightarrow> initial_balance d = 0)) \<and>
   (\<forall>d. accounts l (new_account_id d) = None \<and> initial_balance d < 0 \<longrightarrow>
      respond (create_account d (SessionLocal l)) = (Inl NegativeInitialBalance, l))"
proof (intro conjI allI impI)
  show "fst (post_accounts body l) \<noteq> Inl NegativeInitialBalance"
    using post_accounts_cases [of body l] by auto
next
  fix acc assume "fst (post_accounts body l) = Inr acc"
  then show "0 \<le> balance acc" "accounts (snd (post_accounts body l)) (account_id acc) = Some acc"
    using post_accounts_cases [of body l] by auto
next
  fix d assume "parse_AccountCreate body = Some d"
  then show "0 \<le> initial_balance d" by (rule parse_AccountCreate_Some(1))
next
  fix d assume "parse_AccountCreate body = Some d" "body_initial_balance body = None"
  then show "initial_balance d = 0" using parse_AccountCreate_Some(3) [of body d] by simp
next
  fix d :: AccountCreate
  assume "accounts l (new_account_id d) = None \<and> initial_balance d < 0"
  then show "respond (create_account d (SessionLocal l)) = (Inl NegativeInitialBalance, l)"
    by (simp add: create_account_negative)
qed

theorem negative_initial_balance_unreachable_witness:
  "fst (post_accounts (account_body ''TEST001'' ''Test User'' (Some (- 10000))) empty_ledger)
     \<noteq> Inl NegativeInitialBalance \<and>
   respond (create_account
      \<lparr>new_account_id = ''TEST001'', new_owner_name = ''Test User'', initial_balance = - 10000\<rparr>
      (SessionLocal empty_ledger)) = (Inl NegativeInitialBalance, empty_ledger)"
proof -
  let ?d = "\<lparr>new_account_id = ''TEST001'', new_owner_name = ''Test User'',
             initial_balance = - 10000\<rparr>"
  have h: "accounts empty_ledger (new_account_id ?d) = None \<and> initial_balance ?d < 0"
    by (simp add: empty_ledger_def)
  from negative_initial_balance_unreachable
         [of "account_body ''TEST001'' ''Test User'' (Some (- 10000))" empty_ledger] h
  show ?thesis by blast
qed

end
